theory Spec2Isabelle
  imports Main "HOL-Library.FSet" "HOL-Library.Char_ord" "HOL-Library.List_Lexorder"
    "HOL-Library.Sublist"
begin

section \<open>World definition\<close>

text \<open>
  The game is a Python program over a fixed table \<open>NODES\<close> of rooms. A file entry is
  a dictionary with the keys \<open>type\<close>, \<open>content\<close> and, where present, \<open>cipher\<close>,
  \<open>script_id\<close>, \<open>item_id\<close> and \<open>downloadable\<close>; the source reads the optional
  keys with \<open>.get\<close>, so an absent boolean key reads as false and an absent identifier
  as \<open>None\<close>. Every node of the table has its \<open>entry\<close> dictionary with both lists.
  A Python string is modelled by the bytes of its UTF-8 encoding, as a list of 8-bit
  characters, so that an ASCII text is its own model; concatenation, comparison,
  sorting and the search for an ASCII word act on the bytes as Python acts on the
  characters. The texts of the table are the values of the source's \<open>block(...)\<close>
  expressions (common indentation and outer newlines removed).
\<close>

record file_entry =
  ftype :: string
  content :: string
  cipher :: bool
  script_id :: "string option"
  item_id :: "string option"
  downloadable :: bool

record node =
  title :: string
  desc :: string
  entry_items :: "string list"
  entry_flags :: "string list"
  links :: "string list"
  files :: "(string \<times> file_entry) list"

definition node_hub_home :: node where
  "node_hub_home = \<lparr>title = ''HUB/HOME'',
    desc = ''A sterile hub and a dead net outside the glass.\<newline>The prompt waits. The drift is quiet tonight.'',
    entry_items = [], entry_flags = [],
    links = [''market.node'', ''perimeter.gate''],
    files = [
    (''readme.txt'', \<lparr>ftype = ''text'', content = ''HACKTERM//BOOTSTRAP\<newline>This shell simulates a dead net for training and salvage.\<newline>\<newline>Commands:\<newline>  scan              list discovered nodes\<newline>  connect <node>    jump to a node\<newline>  ls                list files in the node\<newline>  cat <file>        read a file\<newline>  download <file>   take a script or item\<newline>  run <script>      execute a script in your kit\<newline>  decode rot13|b64  decode the last cipher you read\<newline>  inventory         list your scripts and items\<newline>  log               review your activity\<newline>  home              return to hub\<newline>  save              write a save file\<newline>  load              load save file'',
      cipher = False, script_id = None, item_id = None, downloadable = False\<rparr>),
    (''message.txt'', \<lparr>ftype = ''text'', content = ''FROM: SWITCHBOARD\<newline>SUBJ: ember signal\<newline>\<newline>We caught a pulse in the Drift. It points at the Sable Archive.\<newline>Follow the ember. Bring back what you can. Decide if it should\<newline>leave the net or stay buried.\<newline>\<newline>Start by mapping the edge with tracer.s.\<newline>Then sweep for hidden signals with sniffer.s.'',
      cipher = False, script_id = None, item_id = None, downloadable = False\<rparr>),
    (''tracer.s'', \<lparr>ftype = ''script'', content = ''/* tracer.s */\<newline>function main() {\<newline>  // Map the perimeter mesh and expose reachable nodes.\<newline>  // Output is cached to your local scan results.\<newline>}'',
      cipher = False, script_id = Some ''tracer'', item_id = None, downloadable = True\<rparr>)]\<rparr>"

definition node_market_node :: node where
  "node_market_node = \<lparr>title = ''SCRAP EXCHANGE'',
    desc = ''A low signal bazaar built from scavenged hardware.\<newline>Deals are cheap. Trust is not.'',
    entry_items = [], entry_flags = [''trace_open''],
    links = [''hub.home'', ''perimeter.gate'', ''weaver.den''],
    files = [
    (''stall.log'', \<lparr>ftype = ''text'', content = ''SCRAP EXCHANGE LOG\<newline>Juniper keeps a mask routine in plain sight. Run spoof.s to mint\<newline>a mask.dat. The perimeter gate will not open without a badge\<newline>and a mask.'',
      cipher = False, script_id = None, item_id = None, downloadable = False\<rparr>),
    (''rumor.txt'', \<lparr>ftype = ''text'', content = ''RUMOR SLIP\<newline>There's a quiet band with a Weaver den and a corp audit node.\<newline>Sniffer pulses can spot them. Pull sniffer.s and sweep.'',
      cipher = False, script_id = None, item_id = None, downloadable = False\<rparr>),
    (''sniffer.s'', \<lparr>ftype = ''script'', content = ''/* sniffer.s */\<newline>function main() {\<newline>  // Sweep the quiet bands for hidden signals.\<newline>}'',
      cipher = False, script_id = Some ''sniffer'', item_id = None, downloadable = True\<rparr>),
    (''spoof.s'', \<lparr>ftype = ''script'', content = ''/* spoof.s */\<newline>function main() {\<newline>  // Spoof a temporary mask signature.\<newline>  // Output: mask.dat\<newline>}'',
      cipher = False, script_id = Some ''spoof'', item_id = None, downloadable = True\<rparr>)]\<rparr>"

definition node_weaver_den :: node where
  "node_weaver_den = \<lparr>title = ''WEAVER.DEN'',
    desc = ''A low-lit workshop of stitched code and soft voices.\<newline>The Weavers trade in patterns and provenance.'',
    entry_items = [], entry_flags = [''sniffer_run''],
    links = [''market.node'', ''archives.arc'', ''corp.audit''],
    files = [
    (''weaver.log'', \<lparr>ftype = ''text'', content = ''WEAVER.DEN LOG\<newline>Bring proof of thread. The Lattice cache honors a token spliced\<newline>from badge.sig + mask.dat + weaver.mark. Use splice.s.\<newline>Ghost your trail with ghost.s to reach the corporate audit node.'',
      cipher = False, script_id = None, item_id = None, downloadable = False\<rparr>),
    (''weaver.mark'', \<lparr>ftype = ''item'', content = ''WEAVER.MARK\<newline>A stitched glyph accepted by those who know.'',
      cipher = False, script_id = None, item_id = Some ''weaver.mark'', downloadable = True\<rparr>),
    (''splice.s'', \<lparr>ftype = ''script'', content = ''/* splice.s */\<newline>function main() {\<newline>  // Forge a lattice token from badge, mask, and mark.\<newline>}'',
      cipher = False, script_id = Some ''splice'', item_id = None, downloadable = True\<rparr>),
    (''ghost.s'', \<lparr>ftype = ''script'', content = ''/* ghost.s */\<newline>function main() {\<newline>  // Mask your audit trail to slip past corp sensors.\<newline>}'',
      cipher = False, script_id = Some ''ghost'', item_id = None, downloadable = True\<rparr>)]\<rparr>"

definition node_corp_audit :: node where
  "node_corp_audit = \<lparr>title = ''CORP.AUDIT'',
    desc = ''An audit chamber lit by cold LEDs.\<newline>Anything unmasked gets burned.'',
    entry_items = [], entry_flags = [''ghosted''],
    links = [''weaver.den''],
    files = [
    (''audit.log'', \<lparr>ftype = ''text'', content = ''CORP AUDIT SUMMARY\<newline>A relay shard was quarantined after the Drift patch.\<newline>If you want it, stay ghosted and move quiet.'',
      cipher = False, script_id = None, item_id = None, downloadable = False\<rparr>),
    (''relay.shard'', \<lparr>ftype = ''item'', content = ''RELAY.SHARD\<newline>Segment: LK-ACCT/relay\<newline>Status: cold'',
      cipher = False, script_id = None, item_id = Some ''relay.shard'', downloadable = True\<rparr>)]\<rparr>"

definition node_lattice_cache :: node where
  "node_lattice_cache = \<lparr>title = ''LATTICE.CACHE'',
    desc = ''A vault of interlocked lattice.\<newline>The air tastes like static and old promises.'',
    entry_items = [''token.key'', ''weaver.mark''], entry_flags = [''lattice_sigil''],
    links = [''archives.arc'', ''core.relic''],
    files = [
    (''cache.log'', \<lparr>ftype = ''text'', content = ''LATTICE CACHE\<newline>The lattice accepts the token and the weaver mark.\<newline>The relic key rests inside. Fork the relay to expose the core.'',
      cipher = False, script_id = None, item_id = None, downloadable = False\<rparr>),
    (''cache.rot13'', \<lparr>ftype = ''text'', content = ''gur eryvp xrl jnvgf va gur pnpur.'',
      cipher = True, script_id = None, item_id = None, downloadable = False\<rparr>),
    (''relic.key'', \<lparr>ftype = ''item'', content = ''RELIC.KEY\<newline>Access key for CORE RELIC.'',
      cipher = False, script_id = None, item_id = Some ''relic.key'', downloadable = True\<rparr>)]\<rparr>"

definition node_perimeter_gate :: node where
  "node_perimeter_gate = \<lparr>title = ''PERIMETER.GATE'',
    desc = ''The Lotus-Kline perimeter still hums with old security.\<newline>A quiet node, a long memory.'',
    entry_items = [], entry_flags = [''trace_open''],
    links = [''hub.home'', ''market.node'', ''archives.arc''],
    files = [
    (''access.log'', \<lparr>ftype = ''text'', content = ''PERIMETER ACCESS LOG\<newline>Gate rejects unmasked access. Badge required.\<newline>Attached note looks like rot13. See cipher.txt.'',
      cipher = False, script_id = None, item_id = None, downloadable = False\<rparr>),
    (''cipher.txt'', \<lparr>ftype = ''text'', content = ''rzore vf gur qevsg. gur nepuvir jnagf n onqtr naq n znfx.'',
      cipher = True, script_id = None, item_id = None, downloadable = False\<rparr>),
    (''badge.sig'', \<lparr>ftype = ''item'', content = ''BADGE.SIG\<newline>Issuer: Lotus-Kline perimeter\<newline>Signature: 9f3a-77b1'',
      cipher = False, script_id = None, item_id = Some ''badge.sig'', downloadable = True\<rparr>)]\<rparr>"

definition node_archives_arc :: node where
  "node_archives_arc = \<lparr>title = ''SABLE ARCHIVE'',
    desc = ''Cold stacks of memory and a faint relay tone.\<newline>The archive is here, waiting.'',
    entry_items = [''badge.sig'', ''mask.dat''], entry_flags = [''ember_phrase''],
    links = [''perimeter.gate'', ''weaver.den'', ''lattice.cache''],
    files = [
    (''lore.log'', \<lparr>ftype = ''text'', content = ''SABLE ARCHIVE INDEX\<newline>The archive remembers the first operators and the patch that\<newline>turned the net to drift. A relay called the Relic is folded\<newline>inside. The old manifest warns: sigil stored in base64.\<newline>The Lattice cache answers only to a token and a weaver mark.'',
      cipher = False, script_id = None, item_id = None, downloadable = False\<rparr>),
    (''weaver.note'', \<lparr>ftype = ''text'', content = ''SWITCHBOARD NOTE\<newline>A Weaver den sits off-band. Run sniffer.s to locate it.\<newline>They can stitch the token the lattice requires.'',
      cipher = False, script_id = None, item_id = None, downloadable = False\<rparr>),
    (''key.b64'', \<lparr>ftype = ''text'', content = ''U0lHSUw6IExBVFRJQ0U='',
      cipher = True, script_id = None, item_id = None, downloadable = False\<rparr>),
    (''fork.s'', \<lparr>ftype = ''script'', content = ''/* fork.s */\<newline>function main() {\<newline>  // Split a relay channel to expose the core.\<newline>}'',
      cipher = False, script_id = Some ''fork'', item_id = None, downloadable = True\<rparr>)]\<rparr>"

definition node_core_relic :: node where
  "node_core_relic = \<lparr>title = ''CORE RELIC'',
    desc = ''A buried relay and a voice in the static.\<newline>You can feel the drift pull at the edges.'',
    entry_items = [''relay.shard'', ''relic.key''], entry_flags = [''lattice_sigil'', ''forked''],
    links = [''archives.arc''],
    files = [
    (''core.log'', \<lparr>ftype = ''text'', content = ''CORE RELIC\<newline>The relic wakes. It asks for a choice.\<newline>\<newline>Type: exfiltrate  - lift it out into a private shell\<newline>Type: restore     - bind it back to the Drift'',
      cipher = False, script_id = None, item_id = None, downloadable = False\<rparr>)]\<rparr>"

definition NODES :: "(string \<times> node) list" where
  "NODES = [
    (''hub.home'', node_hub_home),
    (''market.node'', node_market_node),
    (''weaver.den'', node_weaver_den),
    (''corp.audit'', node_corp_audit),
    (''lattice.cache'', node_lattice_cache),
    (''perimeter.gate'', node_perimeter_gate),
    (''archives.arc'', node_archives_arc),
    (''core.relic'', node_core_relic)]"


section \<open>Player state\<close>

text \<open>
  The state dictionary of the source. The five collections are Python sets (finite,
  membership only); the log is a list in insertion order.
\<close>

record state =
  handle :: string
  location :: string
  inventory :: "string fset"
  scripts :: "string fset"
  flags :: "string fset"
  discovered :: "string fset"
  log :: "string list"
  visited :: "string fset"
  last_cipher :: "string option"
  ended :: bool

text \<open>
  Exceptions that leave a command handler, and the exit of the process. A command
  returns either such an error or the state it leaves together with the texts it
  handed to \<open>show\<close> and \<open>print\<close>, in order (a bare \<open>print()\<close> is the empty
  text). Line wrapping by \<open>render\<close> is not part of the model; output written before
  an exception is not kept.
\<close>

datatype error = KeyError string | SystemExit | JSONDecodeError

type_synonym result = "error + (state \<times> string list)"

definition fresh_state :: "string \<Rightarrow> state" where
  "fresh_state h =
     \<lparr>handle = (if h = [] then ''ghost'' else h),
      location = ''hub.home'',
      inventory = {||},
      scripts = {||},
      flags = {||},
      discovered = {|''hub.home''|},
      log = [],
      visited = {||},
      last_cipher = None,
      ended = False\<rparr>"

definition log_event :: "state \<Rightarrow> string \<Rightarrow> state" where
  "log_event s text = s\<lparr>log := log s @ [text]\<rparr>"

text \<open>
  \<open>discover\<close> loops over the given ids; the model returns the updated state together
  with the list \<open>added\<close>.
\<close>

fun discover :: "state \<Rightarrow> string list \<Rightarrow> state \<times> string list" where
  "discover s [] = (s, [])"
| "discover s (node_id # nodes) =
     (if node_id |\<notin>| discovered s
      then (case discover (s\<lparr>discovered := finsert node_id (discovered s)\<rparr>) nodes of
              (s', added) \<Rightarrow> (s', node_id # added))
      else discover s nodes)"

text \<open>
  \<open>requirements_for\<close> indexes \<open>NODES\<close> with the node id, which raises \<open>KeyError\<close>
  for an id that is not in the table. It only reads the state.
\<close>

definition requirements_for ::
    "state \<Rightarrow> string \<Rightarrow> error + (bool \<times> string list \<times> string list)" where
  "requirements_for s node_id =
     (case map_of NODES node_id of
        None \<Rightarrow> Inl (KeyError node_id)
      | Some n \<Rightarrow>
          (let missing_items = filter (\<lambda>item. item |\<notin>| inventory s) (entry_items n);
               missing_flags = filter (\<lambda>flag. flag |\<notin>| flags s) (entry_flags n);
               ok = (missing_items = [] \<and> missing_flags = [])
           in Inr (ok, missing_items, missing_flags)))"

section \<open>Text helpers\<close>

text \<open>
  \<open>sep.join(xs)\<close>, \<open>str.lower()\<close>, the substring test \<open>needle in hay\<close>,
  \<open>str.endswith\<close> and the decimal text of \<open>len(...)\<close>. The program compares the
  result of \<open>str.lower()\<close> only with ASCII words that have no letter \<open>k\<close>; the only
  characters outside ASCII whose lower case has an ASCII letter are U+212A (Kelvin sign,
  \<open>k\<close>) and U+0130 (\<open>i\<close> followed by a combining dot), so these comparisons come out
  the same with the mapping of the ASCII letters, which is the one defined here.
\<close>

fun join :: "string \<Rightarrow> string list \<Rightarrow> string" where
  "join sep [] = []"
| "join sep [x] = x"
| "join sep (x # y # ys) = x @ sep @ join sep (y # ys)"

definition lower_char :: "char \<Rightarrow> char" where
  "lower_char c =
     (let n = (of_char c :: nat) in if 65 \<le> n \<and> n \<le> 90 then char_of (n + 32) else c)"

definition lower :: "string \<Rightarrow> string" where
  "lower t = map lower_char t"

fun contains :: "string \<Rightarrow> string \<Rightarrow> bool" where
  "contains needle [] = (needle = [])"
| "contains needle (c # cs) = (prefix needle (c # cs) \<or> contains needle cs)"

definition endswith :: "string \<Rightarrow> string \<Rightarrow> bool" where
  "endswith t suf = suffix suf t"

function str_nat :: "nat \<Rightarrow> string" where
  "str_nat n = (if n < 10 then [char_of (48 + n)]
                else str_nat (n div 10) @ [char_of (48 + n mod 10)])"
  by pat_completeness auto
termination
  by (relation "measure (\<lambda>n. n)") auto

section \<open>Entering a node and the informational commands\<close>

text \<open>
  \<open>enter_node\<close> updates the state first and then prints the node's title and
  description, where \<open>NODES[node_id]\<close> raises \<open>KeyError\<close> for an unknown id.
\<close>

definition enter_node :: "state \<Rightarrow> string \<Rightarrow> result" where
  "enter_node s node_id =
     (let s1 = s\<lparr>location := node_id\<rparr>;
          s2 = (if node_id |\<notin>| visited s1
                then log_event (s1\<lparr>visited := finsert node_id (visited s1)\<rparr>)
                       (''Entered '' @ node_id)
                else s1)
      in case map_of NODES node_id of
           None \<Rightarrow> Inl (KeyError node_id)
         | Some n \<Rightarrow> Inr (s2, [[], '':: '' @ node_id @ '' :: '' @ title n, desc n]))"

definition current_files :: "state \<Rightarrow> error + (string \<times> file_entry) list" where
  "current_files s =
     (case map_of NODES (location s) of
        None \<Rightarrow> Inl (KeyError (location s))
      | Some n \<Rightarrow> Inr (files n))"

definition help_text :: string where
  "help_text = ''Commands:\<newline>  help                 show this list\<newline>  scan                 list discovered nodes\<newline>  connect <node>       jump to a node\<newline>  ls                   list files in the node\<newline>  cat <file>           read a file\<newline>  download <file>      take a script or item\<newline>  run <script>         execute a script in your kit\<newline>  decode rot13|b64     decode the last cipher you read\<newline>  inventory            list your scripts and items\<newline>  profile              show your handle and status\<newline>  log                  review your activity\<newline>  home                 return to hub\<newline>  save                 write a save file\<newline>  load                 load save file\<newline>  quit                 exit''"

definition cmd_help :: "state \<Rightarrow> string list \<Rightarrow> result" where
  "cmd_help s args = Inr (s, [help_text])"

text \<open>The list \<open>needs\<close> that \<open>cmd_scan\<close> and \<open>cmd_connect\<close> both build inline.\<close>

definition needs :: "string list \<Rightarrow> string list \<Rightarrow> string list" where
  "needs missing_items missing_flags =
     (if missing_items \<noteq> [] then [''items: '' @ join '', '' missing_items] else []) @
     (if missing_flags \<noteq> [] then [''signals: '' @ join '', '' missing_flags] else [])"

fun scan_lines :: "state \<Rightarrow> string list \<Rightarrow> error + string list" where
  "scan_lines s [] = Inr []"
| "scan_lines s (node_id # nodes) =
     (case requirements_for s node_id of
        Inl e \<Rightarrow> Inl e
      | Inr (ok, missing_items, missing_flags) \<Rightarrow>
          (let line = ''- '' @ node_id @ '' ['' @ (if ok then ''OPEN'' else ''LOCKED'') @ '']'' @
                 (if \<not> ok then '' ('' @ join ''; '' (needs missing_items missing_flags) @ '')''
                  else [])
           in case scan_lines s nodes of
                Inl e \<Rightarrow> Inl e
              | Inr ls \<Rightarrow> Inr (line # ls)))"

definition cmd_scan :: "state \<Rightarrow> string list \<Rightarrow> result" where
  "cmd_scan s args =
     (let nodes = sorted_list_of_fset (ffilter (\<lambda>n. n \<noteq> location s) (discovered s))
      in if nodes = [] then Inr (s, [''No other signals.''])
         else case scan_lines s nodes of
                Inl e \<Rightarrow> Inl e
              | Inr ls \<Rightarrow> Inr (s, ''Signals:'' # ls))"

definition cmd_ls :: "state \<Rightarrow> string list \<Rightarrow> result" where
  "cmd_ls s args =
     (case current_files s of
        Inl e \<Rightarrow> Inl e
      | Inr fs \<Rightarrow>
          if fs = [] then Inr (s, [''No files in this node.''])
          else Inr (s, map (\<lambda>(name, meta). ''- '' @ name @ '' ('' @ ftype meta @ '')'') fs))"

definition cmd_inventory :: "state \<Rightarrow> string list \<Rightarrow> result" where
  "cmd_inventory s args =
     (if scripts s = {||} \<and> inventory s = {||} then Inr (s, [''Your kit is empty.''])
      else Inr (s,
        (if scripts s \<noteq> {||}
         then [''Scripts: '' @ join '', '' (sorted_list_of_fset (scripts s))] else []) @
        (if inventory s \<noteq> {||}
         then [''Items: '' @ join '', '' (sorted_list_of_fset (inventory s))] else [])))"

definition cmd_profile :: "state \<Rightarrow> string list \<Rightarrow> result" where
  "cmd_profile s args =
     Inr (s, [''Handle: '' @ handle s,
              ''Location: '' @ location s,
              ''Scripts: '' @ str_nat (fcard (scripts s)) @ '' | Items: '' @
                str_nat (fcard (inventory s)),
              ''Signals: '' @ str_nat (fcard (discovered s))])"

definition cmd_log :: "state \<Rightarrow> string list \<Rightarrow> result" where
  "cmd_log s args =
     (if log s = [] then Inr (s, [''Log is empty.''])
      else Inr (s, map (\<lambda>entry. ''- '' @ entry) (log s)))"

section \<open>Commands that change the state\<close>

definition cmd_connect :: "state \<Rightarrow> string list \<Rightarrow> result" where
  "cmd_connect s args =
     (if args = [] then Inr (s, [''Connect where?''])
      else let node_id = hd args
           in if node_id |\<notin>| discovered s then Inr (s, [''No signal by that name.''])
              else case requirements_for s node_id of
                     Inl e \<Rightarrow> Inl e
                   | Inr (ok, missing_items, missing_flags) \<Rightarrow>
                       if \<not> ok
                       then Inr (s, [''Access denied. Missing '' @
                                      join ''; '' (needs missing_items missing_flags) @ ''.''])
                       else enter_node s node_id)"

definition cmd_cat :: "state \<Rightarrow> string list \<Rightarrow> result" where
  "cmd_cat s args =
     (if args = [] then Inr (s, [''Read which file?''])
      else let name = hd args
           in case current_files s of
                Inl e \<Rightarrow> Inl e
              | Inr fs \<Rightarrow>
                  (case map_of fs name of
                     None \<Rightarrow> Inr (s, [''File not found.''])
                   | Some entry \<Rightarrow>
                       if cipher entry
                       then Inr (log_event (s\<lparr>last_cipher := Some (content entry)\<rparr>)
                                   (''Read cipher '' @ name), [content entry])
                       else Inr (s, [content entry])))"

text \<open>
  \<open>entry["script_id"]\<close> and \<open>entry["item_id"]\<close> are plain subscripts: they raise
  \<open>KeyError\<close> when the key is absent.
\<close>

definition cmd_download :: "state \<Rightarrow> string list \<Rightarrow> result" where
  "cmd_download s args =
     (if args = [] then Inr (s, [''Download which file?''])
      else let name = hd args
           in case current_files s of
                Inl e \<Rightarrow> Inl e
              | Inr fs \<Rightarrow>
                  (case map_of fs name of
                     None \<Rightarrow> Inr (s, [''File not found.''])
                   | Some entry \<Rightarrow>
                       if \<not> downloadable entry then Inr (s, [''Nothing to download here.''])
                       else if ftype entry = ''script''
                       then (case script_id entry of
                               None \<Rightarrow> Inl (KeyError ''script_id'')
                             | Some sid \<Rightarrow>
                                 if sid |\<in>| scripts s
                                 then Inr (s, [''Script already in your kit.''])
                                 else Inr (log_event (s\<lparr>scripts := finsert sid (scripts s)\<rparr>)
                                             (''Downloaded script '' @ sid),
                                           [''Downloaded script: '' @ sid]))
                       else if ftype entry = ''item''
                       then (case item_id entry of
                               None \<Rightarrow> Inl (KeyError ''item_id'')
                             | Some iid \<Rightarrow>
                                 if iid |\<in>| inventory s
                                 then Inr (s, [''Item already in your kit.''])
                                 else Inr (log_event (s\<lparr>inventory := finsert iid (inventory s)\<rparr>)
                                             (''Downloaded item '' @ iid),
                                           [''Downloaded item: '' @ iid]))
                       else Inr (s, [''Nothing to download here.''])))"

text \<open>\<open>run_script\<close> raises nothing: it returns the state and what it showed.\<close>

definition run_script :: "state \<Rightarrow> string \<Rightarrow> state \<times> string list" where
  "run_script s sid =
     (if sid = ''tracer'' then
        (case discover s [''market.node'', ''perimeter.gate''] of
           (s1, added) \<Rightarrow>
             (log_event (s1\<lparr>flags := finsert ''trace_open'' (flags s1)\<rparr>)
                ''Tracer mapped the perimeter'',
              [''Tracer online. Mesh resolved.''] @
              (if added \<noteq> [] then [''New signals: '' @ join '', '' added] else [])))
      else if sid = ''spoof'' then
        (if ''mask.dat'' |\<in>| inventory s then (s, [''Mask already minted.''])
         else (log_event (s\<lparr>inventory := finsert ''mask.dat'' (inventory s)\<rparr>)
                 ''Minted mask.dat'',
               [''Mask minted: mask.dat'']))
      else if sid = ''sniffer'' then
        (if ''sniffer_run'' |\<in>| flags s
         then (s, [''Sniffer already swept the quiet bands.''])
         else (case discover (s\<lparr>flags := finsert ''sniffer_run'' (flags s)\<rparr>)
                      [''weaver.den'', ''corp.audit'', ''lattice.cache''] of
                 (s1, added) \<Rightarrow>
                   (log_event s1 ''Sniffer swept the quiet bands'',
                    [''Sniffer pulse complete.''] @
                    (if added \<noteq> [] then [''New signals: '' @ join '', '' added] else []))))
      else if sid = ''splice'' then
        (if ''token.key'' |\<in>| inventory s then (s, [''Token already forged.''])
         else let missing = filter (\<lambda>item. item |\<notin>| inventory s)
                              [''badge.sig'', ''mask.dat'', ''weaver.mark'']
              in if missing \<noteq> []
                 then (s, [''Splice failed. Missing: '' @ join '', '' missing])
                 else (log_event (s\<lparr>inventory := finsert ''token.key'' (inventory s)\<rparr>)
                         ''Spliced token.key'',
                       [''Token forged: token.key'']))
      else if sid = ''ghost'' then
        (if ''ghosted'' |\<in>| flags s then (s, [''Ghost protocol already active.''])
         else if ''weaver.mark'' |\<notin>| inventory s
         then (s, [''Ghost protocol requires weaver.mark.''])
         else (case discover (s\<lparr>flags := finsert ''ghosted'' (flags s)\<rparr>) [''corp.audit''] of
                 (s1, added) \<Rightarrow>
                   (log_event s1 ''Ghosted the audit trail'',
                    [''Ghost protocol active. Your trail is cold.''] @
                    (if added \<noteq> [] then [''New signal: '' @ join '', '' added] else []))))
      else if sid = ''fork'' then
        (if ''forked'' |\<in>| flags s then (s, [''Relay already forked.''])
         else (case discover (s\<lparr>flags := finsert ''forked'' (flags s)\<rparr>) [''core.relic''] of
                 (s1, added) \<Rightarrow>
                   (log_event s1 ''Forked the relay to the core'',
                    [''Relay forked. Core channel exposed.''] @
                    (if added \<noteq> [] then [''New signal: core.relic''] else []))))
      else (s, [''Script returned no response.'']))"

definition cmd_run :: "state \<Rightarrow> string list \<Rightarrow> result" where
  "cmd_run s args =
     (if args = [] then Inr (s, [''Run which script?''])
      else let raw = hd args;
               sid = (if endswith raw ''.s'' then take (length raw - 2) raw else raw)
           in if sid |\<in>| scripts s then Inr (run_script s sid)
              else case current_files s of
                     Inl e \<Rightarrow> Inl e
                   | Inr fs \<Rightarrow>
                       if list_ex (\<lambda>(name, entry). ftype entry = ''script'' \<and>
                                     script_id entry = Some sid) fs
                       then (case run_script s sid of
                               (s', out) \<Rightarrow>
                                 Inr (s', out @
                                   [''Tip: download the script to keep it in your kit.'']))
                       else Inr (s, [''Script not found in your kit or this node.'']))"

section \<open>Cipher decoding\<close>

text \<open>
  Modelled from the spec: \<open>codecs.decode(payload, "rot_13")\<close> is the standard library's
  codec, not code of the repository. It is the 13-position Caesar substitution over the
  ASCII letters, case-preserving; every other character passes through unchanged.
\<close>

definition rot13_char :: "char \<Rightarrow> char" where
  "rot13_char c =
     (let n = (of_char c :: nat)
      in if 65 \<le> n \<and> n \<le> 90 then char_of (65 + (n - 65 + 13) mod 26)
         else if 97 \<le> n \<and> n \<le> 122 then char_of (97 + (n - 97 + 13) mod 26)
         else c)"

definition rot13 :: "string \<Rightarrow> string" where
  "rot13 t = map rot13_char t"

text \<open>
  Modelled from the spec: the strict decoding of base64. The payload must be a sequence
  of complete four-character groups over the alphabet \<open>A-Z a-z 0-9 + /\<close>, the last
  group possibly ending in one or two \<open>=\<close>; anything else is rejected (\<open>None\<close>). Bytes
  are 8-bit characters. The decoder that the program calls,
  \<open>base64.b64decode(..., validate=True)\<close>, is a parameter (below), since the library
  accepts some payloads beyond these; \<open>b64decode\<close> states what it returns on a payload
  that is well formed.
\<close>

definition b64_index :: "char \<Rightarrow> nat option" where
  "b64_index c =
     (let n = (of_char c :: nat)
      in if 65 \<le> n \<and> n \<le> 90 then Some (n - 65)
         else if 97 \<le> n \<and> n \<le> 122 then Some (n - 71)
         else if 48 \<le> n \<and> n \<le> 57 then Some (n + 4)
         else if n = 43 then Some 62
         else if n = 47 then Some 63
         else None)"

fun b64decode :: "string \<Rightarrow> string option" where
  "b64decode [] = Some []"
| "b64decode (a # b # c # d # rest) =
     (case (b64_index a, b64_index b) of
        (Some x, Some y) \<Rightarrow>
          if rest = [] \<and> c = CHR ''='' \<and> d = CHR ''=''
          then Some [char_of (x * 4 + y div 16)]
          else (case b64_index c of
                  None \<Rightarrow> None
                | Some z \<Rightarrow>
                    if rest = [] \<and> d = CHR ''=''
                    then Some [char_of (x * 4 + y div 16), char_of ((y mod 16) * 16 + z div 4)]
                    else (case b64_index d of
                            None \<Rightarrow> None
                          | Some w \<Rightarrow>
                              (case b64decode rest of
                                 None \<Rightarrow> None
                               | Some bs \<Rightarrow>
                                   Some (char_of (x * 4 + y div 16) #
                                         char_of ((y mod 16) * 16 + z div 4) #
                                         char_of ((z mod 4) * 64 + w) # bs))))
      | _ \<Rightarrow> None)"
| "b64decode _ = None"

text \<open>
  Four functions of the standard library are taken as parameters: \<open>str.strip()\<close>,
  \<open>str.upper()\<close> and \<open>bytes.decode("utf-8", errors="replace")\<close>, since what they return
  for text outside ASCII rests on the Unicode tables of the interpreter, and
  \<open>base64.b64decode(..., validate=True)\<close>, which returns \<open>None\<close> here where the library
  raises. A function of the program that calls one of them, directly or through a
  callee, takes the library as its first argument. With strings as their UTF-8 bytes,
  \<open>payload.encode("utf-8")\<close> is the payload itself.
\<close>

record library =
  str_strip :: "string \<Rightarrow> string"
  str_upper :: "string \<Rightarrow> string"
  bytes_decode :: "string \<Rightarrow> string"
  b64decode_validate :: "string \<Rightarrow> string option"

text \<open>
  \<open>payload\<close> is \<open>None\<close> or a string; Python's \<open>not payload\<close> holds for \<open>None\<close> and for
  the empty string.
\<close>

definition falsy :: "string option \<Rightarrow> bool" where
  "falsy p = (p = None \<or> p = Some [])"

definition cmd_decode :: "library \<Rightarrow> state \<Rightarrow> string list \<Rightarrow> result" where
  "cmd_decode lib s args =
     (if args = [] then Inr (s, [''Usage: decode rot13|b64 <text>''])
      else let cipher_name = lower (hd args);
               payload0 = (if length args > 1 then Some (str_strip lib (join '' '' (tl args)))
                           else None);
               payload1 = (if falsy payload0 then last_cipher s else payload0)
           in case payload1 of
                None \<Rightarrow> Inr (s, [''No cached cipher. Read a cipher file first.''])
              | Some payload \<Rightarrow>
                  if payload = [] then Inr (s, [''No cached cipher. Read a cipher file first.''])
                  else (case (if cipher_name \<in> set [''rot13'', ''rot'', ''r13'']
                              then Inr (rot13 payload)
                              else if cipher_name \<in> set [''b64'', ''base64'']
                              then (case b64decode_validate lib payload of
                                      None \<Rightarrow> Inl ''Base64 decode failed.''
                                    | Some raw \<Rightarrow> Inr (bytes_decode lib raw))
                              else Inl ''Unknown cipher. Use rot13 or b64.'') of
                          Inl msg \<Rightarrow> Inr (s, [msg])
                        | Inr decoded \<Rightarrow>
                            (let up = str_upper lib decoded;
                                 s1 = (if contains ''EMBER'' up \<and> ''ember_phrase'' |\<notin>| flags s
                                       then log_event (s\<lparr>flags := finsert ''ember_phrase'' (flags s)\<rparr>)
                                              ''Decoded ember phrase''
                                       else s);
                                 s2 = (if contains ''LATTICE'' up \<and> ''lattice_sigil'' |\<notin>| flags s1
                                       then log_event (s1\<lparr>flags := finsert ''lattice_sigil'' (flags s1)\<rparr>)
                                              ''Decoded lattice sigil''
                                       else s1)
                             in Inr (s2, [''Decoded:'', decoded]))))"

section \<open>Home and the two endings\<close>

definition cmd_home :: "state \<Rightarrow> string list \<Rightarrow> result" where
  "cmd_home s args = enter_node s ''hub.home''"

definition exfiltrate_text :: string where
  "exfiltrate_text = ''You lift the relic into your shell. The Drift goes quiet behind you.\<newline>A new story begins, sealed from the old net.''"

definition restore_text :: string where
  "restore_text = ''You bind the relic back to the Drift. The net exhales.\<newline>The archive sleeps, but its signal will haunt the edges.''"

definition cmd_exfiltrate :: "state \<Rightarrow> string list \<Rightarrow> result" where
  "cmd_exfiltrate s args =
     (if location s \<noteq> ''core.relic'' then Inr (s, [''No target to exfiltrate here.''])
      else Inr (log_event (s\<lparr>ended := True\<rparr>) ''Ending: exfiltrate'', [exfiltrate_text]))"

definition cmd_restore :: "state \<Rightarrow> string list \<Rightarrow> result" where
  "cmd_restore s args =
     (if location s \<noteq> ''core.relic'' then Inr (s, [''No target to restore here.''])
      else Inr (log_event (s\<lparr>ended := True\<rparr>) ''Ending: restore'', [restore_text]))"

section \<open>Persistence\<close>

text \<open>
  The save file holds one JSON object. A field of the record below is \<open>None\<close> when its
  key is absent from the object; \<open>last_cipher\<close> may also be present with the value
  \<open>null\<close>. The record covers the objects whose present fields have the types that
  \<open>serialize_state\<close> writes; a file that is not JSON at all is \<open>NotJSON\<close>, for which
  \<open>json.load\<close> raises. The JSON text itself, and failures of the file system while
  writing, are not part of the model.
\<close>

record saved =
  saved_handle :: "string option"
  saved_location :: "string option"
  saved_inventory :: "string list option"
  saved_scripts :: "string list option"
  saved_flags :: "string list option"
  saved_discovered :: "string list option"
  saved_log :: "string list option"
  saved_visited :: "string list option"
  saved_last_cipher :: "string option option"
  saved_ended :: "bool option"

datatype save_file = NotJSON | Record saved

type_synonym disk = "save_file option"

definition serialize_state :: "state \<Rightarrow> saved" where
  "serialize_state s =
     \<lparr>saved_handle = Some (handle s),
      saved_location = Some (location s),
      saved_inventory = Some (sorted_list_of_fset (inventory s)),
      saved_scripts = Some (sorted_list_of_fset (scripts s)),
      saved_flags = Some (sorted_list_of_fset (flags s)),
      saved_discovered = Some (sorted_list_of_fset (discovered s)),
      saved_log = Some (log s),
      saved_visited = Some (sorted_list_of_fset (visited s)),
      saved_last_cipher = Some (last_cipher s),
      saved_ended = Some (ended s)\<rparr>"

definition cmd_save :: "state \<Rightarrow> string list \<Rightarrow> state \<times> disk \<times> string list" where
  "cmd_save s args = (s, Some (Record (serialize_state s)), [''Saved to save.json''])"

text \<open>\<open>data.get(key, default)\<close> on an optional field.\<close>

definition get_default :: "'a option \<Rightarrow> 'a \<Rightarrow> 'a" where
  "get_default field d = (case field of None \<Rightarrow> d | Some v \<Rightarrow> v)"

definition load_state :: "save_file \<Rightarrow> error + state" where
  "load_state f =
     (case f of
        NotJSON \<Rightarrow> Inl JSONDecodeError
      | Record data \<Rightarrow>
          (let s0 = fresh_state (get_default (saved_handle data) ''ghost'');
               s1 = s0\<lparr>location := get_default (saved_location data) ''hub.home'',
                       inventory := fset_of_list (get_default (saved_inventory data) []),
                       scripts := fset_of_list (get_default (saved_scripts data) []),
                       flags := fset_of_list (get_default (saved_flags data) []),
                       discovered := fset_of_list (get_default (saved_discovered data) []),
                       log := get_default (saved_log data) [],
                       visited := fset_of_list (get_default (saved_visited data) []),
                       last_cipher := get_default (saved_last_cipher data) None,
                       ended := get_default (saved_ended data) False\<rparr>
           in Inr (if location s1 |\<notin>| discovered s1
                   then s1\<lparr>discovered := finsert (location s1) (discovered s1)\<rparr>
                   else s1)))"

text \<open>
  In \<open>cmd_load\<close> only the call of \<open>load_state\<close> stands inside the \<open>try\<close>; the call of
  \<open>enter_node\<close> on the loaded state follows it.
\<close>

definition cmd_load :: "state \<Rightarrow> disk \<Rightarrow> string list \<Rightarrow> result" where
  "cmd_load s d args =
     (case d of
        None \<Rightarrow> Inr (s, [''No save file found.''])
      | Some f \<Rightarrow>
          (case load_state f of
             Inl e \<Rightarrow> Inr (s, [''Failed to load save file.''])
           | Inr new_state \<Rightarrow>
               (case enter_node new_state (location new_state) of
                  Inl e \<Rightarrow> Inl e
                | Inr (s', out) \<Rightarrow> Inr (s', ''Save loaded.'' # out))))"

section \<open>The command loop\<close>

text \<open>
  \<open>handle_command\<close> receives the line already split: \<open>None\<close> when \<open>shlex.split\<close>
  raises \<open>ValueError\<close>, otherwise the list of words. It returns the state, the save
  file and the output, or the exception that ends the process.
\<close>

definition with_disk :: "disk \<Rightarrow> result \<Rightarrow> error + (state \<times> disk \<times> string list)" where
  "with_disk d r = (case r of Inl e \<Rightarrow> Inl e | Inr (s, out) \<Rightarrow> Inr (s, d, out))"

definition handle_command ::
    "library \<Rightarrow> state \<Rightarrow> disk \<Rightarrow> string list option \<Rightarrow>
       error + (state \<times> disk \<times> string list)" where
  "handle_command lib s d split =
     (case split of
        None \<Rightarrow> Inr (s, d, [''Malformed command.''])
      | Some parts \<Rightarrow>
          if parts = [] then Inr (s, d, [])
          else let cmd = lower (hd parts); args = tl parts
               in if cmd \<in> set [''help'', ''?''] then with_disk d (cmd_help s args)
                  else if cmd = ''scan'' then with_disk d (cmd_scan s args)
                  else if cmd \<in> set [''connect'', ''go''] then with_disk d (cmd_connect s args)
                  else if cmd = ''ls'' then with_disk d (cmd_ls s args)
                  else if cmd \<in> set [''cat'', ''read''] then with_disk d (cmd_cat s args)
                  else if cmd = ''download'' then with_disk d (cmd_download s args)
                  else if cmd = ''run'' then with_disk d (cmd_run s args)
                  else if cmd = ''decode'' then with_disk d (cmd_decode lib s args)
                  else if cmd \<in> set [''inventory'', ''inv''] then with_disk d (cmd_inventory s args)
                  else if cmd = ''profile'' then with_disk d (cmd_profile s args)
                  else if cmd = ''log'' then with_disk d (cmd_log s args)
                  else if cmd = ''home'' then with_disk d (cmd_home s args)
                  else if cmd = ''save'' then Inr (cmd_save s args)
                  else if cmd = ''load'' then with_disk d (cmd_load s d args)
                  else if cmd = ''exfiltrate'' then with_disk d (cmd_exfiltrate s args)
                  else if cmd = ''restore'' then with_disk d (cmd_restore s args)
                  else if cmd \<in> set [''quit'', ''exit'', ''q''] then Inl SystemExit
                  else Inr (s, d, [''Unknown command. Type help for options.'']))"

text \<open>
  \<open>start_state\<close> asks whether to load only when a save file exists; \<open>answer\<close> and
  \<open>name\<close> are the two lines read from the player. \<open>main\<close> enters the start location
  and then handles the commands in turn; the output is dropped here.
\<close>

definition start_state :: "library \<Rightarrow> disk \<Rightarrow> string \<Rightarrow> string \<Rightarrow> state" where
  "start_state lib d answer name =
     (case d of
        None \<Rightarrow> fresh_state (str_strip lib name)
      | Some f \<Rightarrow>
          if lower (str_strip lib answer) = ''y''
          then (case load_state f of
                  Inl e \<Rightarrow> fresh_state (str_strip lib name)
                | Inr s \<Rightarrow> s)
          else fresh_state (str_strip lib name))"

fun command_loop ::
    "library \<Rightarrow> state \<Rightarrow> disk \<Rightarrow> string list option list \<Rightarrow> error + (state \<times> disk)" where
  "command_loop lib s d [] = Inr (s, d)"
| "command_loop lib s d (line # lines) =
     (case handle_command lib s d line of
        Inl e \<Rightarrow> Inl e
      | Inr (s', d', out) \<Rightarrow> command_loop lib s' d' lines)"

definition main ::
    "library \<Rightarrow> disk \<Rightarrow> string \<Rightarrow> string \<Rightarrow> string list option list \<Rightarrow>
       error + (state \<times> disk)" where
  "main lib d answer name lines =
     (let s = start_state lib d answer name
      in case enter_node s (location s) of
           Inl e \<Rightarrow> Inl e
         | Inr (s', out) \<Rightarrow> command_loop lib s' d lines)"

section \<open>Auxiliary functions and predicates for the proofs\<close>

text \<open>
  Two parts of \<open>cmd_decode\<close> named as functions of their own, so that its proofs can be
  split: the choice of the decoder, and the scan of the decoded text that follows a
  successful decode. Lemma \<open>cmd_decode_alt\<close> shows that \<open>cmd_decode\<close> is built from them.
\<close>

definition decode_text :: "library \<Rightarrow> string \<Rightarrow> string \<Rightarrow> string + string" where
  "decode_text lib cipher_name payload =
     (if cipher_name \<in> set [''rot13'', ''rot'', ''r13'']
      then Inr (rot13 payload)
      else if cipher_name \<in> set [''b64'', ''base64'']
      then (case b64decode_validate lib payload of
              None \<Rightarrow> Inl ''Base64 decode failed.''
            | Some raw \<Rightarrow> Inr (bytes_decode lib raw))
      else Inl ''Unknown cipher. Use rot13 or b64.'')"

definition unlock :: "library \<Rightarrow> state \<Rightarrow> string \<Rightarrow> state" where
  "unlock lib s decoded =
     (let up = str_upper lib decoded;
          s1 = (if contains ''EMBER'' up \<and> ''ember_phrase'' |\<notin>| flags s
                then log_event (s\<lparr>flags := finsert ''ember_phrase'' (flags s)\<rparr>)
                       ''Decoded ember phrase''
                else s);
          s2 = (if contains ''LATTICE'' up \<and> ''lattice_sigil'' |\<notin>| flags s1
                then log_event (s1\<lparr>flags := finsert ''lattice_sigil'' (flags s1)\<rparr>)
                       ''Decoded lattice sigil''
                else s1)
      in s2)"

text \<open>
  \<open>grows s s'\<close>: the handle is the same, every collection of \<open>s\<close> is contained in
  that of \<open>s'\<close>, the log of \<open>s\<close> is a prefix of the log of \<open>s'\<close>, and \<open>ended\<close> is not
  reset. \<open>home_known s\<close>: the handle is not empty and \<open>discovered\<close> holds both the location
  and the start node. \<open>lists_home d\<close>: the save file, if there is one and it is a JSON
  object, lists the start node among its discovered nodes.
\<close>

definition grows :: "state \<Rightarrow> state \<Rightarrow> bool" where
  "grows s s' =
     (handle s' = handle s \<and> inventory s |\<subseteq>| inventory s' \<and> scripts s |\<subseteq>| scripts s'
      \<and> flags s |\<subseteq>| flags s' \<and> discovered s |\<subseteq>| discovered s'
      \<and> visited s |\<subseteq>| visited s' \<and> prefix (log s) (log s')
      \<and> (ended s \<longrightarrow> ended s'))"

definition home_known :: "state \<Rightarrow> bool" where
  "home_known s =
     (handle s \<noteq> [] \<and> location s |\<in>| discovered s \<and> ''hub.home'' |\<in>| discovered s)"

definition lists_home :: "disk \<Rightarrow> bool" where
  "lists_home d =
     (case d of
        None \<Rightarrow> True
      | Some NotJSON \<Rightarrow> True
      | Some (Record data) \<Rightarrow> ''hub.home'' \<in> set (get_default (saved_discovered data) []))"

text \<open>
  \<open>set_ended b r\<close> is the result \<open>r\<close> of a command with the field \<open>ended\<close> of its state
  set to \<open>b\<close>. \<open>forget_ended r\<close> is the outcome \<open>r\<close> of \<open>handle_command\<close> with the
  field \<open>ended\<close> of the state, and the field \<open>ended\<close> of the save file, put aside.
\<close>

definition set_ended :: "bool \<Rightarrow> result \<Rightarrow> result" where
  "set_ended b r = (case r of Inl e \<Rightarrow> Inl e | Inr (s, out) \<Rightarrow> Inr (s\<lparr>ended := b\<rparr>, out))"

definition forget_ended ::
    "error + (state \<times> disk \<times> string list) \<Rightarrow> error + (state \<times> disk \<times> string list)" where
  "forget_ended r =
     (case r of
        Inl e \<Rightarrow> Inl e
      | Inr (s, d, out) \<Rightarrow>
          Inr (s\<lparr>ended := False\<rparr>,
               (case d of
                  None \<Rightarrow> None
                | Some NotJSON \<Rightarrow> Some NotJSON
                | Some (Record data) \<Rightarrow> Some (Record (data\<lparr>saved_ended := None\<rparr>))),
               out))"

section \<open>A library for the examples\<close>

text \<open>
  On ASCII text the library functions are known without any table: \<open>str.strip()\<close>
  removes the ASCII white space (the characters 9 to 13, 28 to 31 and the space) from
  both ends, \<open>str.upper()\<close> maps the letters \<open>a\<close> to \<open>z\<close> to \<open>A\<close> to \<open>Z\<close>, decoding ASCII
  bytes gives the same text, and a well-formed base64 payload decodes to the bytes that
  \<open>b64decode\<close> gives. \<open>agrees_on_ascii lib\<close> says that a library does this;
  \<open>ascii_library\<close> is one such library, used to evaluate the examples.
\<close>

definition is_ascii :: "string \<Rightarrow> bool" where
  "is_ascii t = list_all (\<lambda>c. (of_char c :: nat) < 128) t"

definition ascii_isspace :: "char \<Rightarrow> bool" where
  "ascii_isspace c =
     (let n = (of_char c :: nat) in (9 \<le> n \<and> n \<le> 13) \<or> (28 \<le> n \<and> n \<le> 32))"

definition ascii_strip :: "string \<Rightarrow> string" where
  "ascii_strip t = rev (dropWhile ascii_isspace (rev (dropWhile ascii_isspace t)))"

definition ascii_upper_char :: "char \<Rightarrow> char" where
  "ascii_upper_char c =
     (let n = (of_char c :: nat) in if 97 \<le> n \<and> n \<le> 122 then char_of (n - 32) else c)"

definition ascii_upper :: "string \<Rightarrow> string" where
  "ascii_upper t = map ascii_upper_char t"

definition ascii_library :: library where
  "ascii_library =
     \<lparr>str_strip = ascii_strip, str_upper = ascii_upper, bytes_decode = (\<lambda>raw. raw),
      b64decode_validate = b64decode\<rparr>"

definition agrees_on_ascii :: "library \<Rightarrow> bool" where
  "agrees_on_ascii lib =
     ((\<forall>t. is_ascii t \<longrightarrow>
         str_strip lib t = ascii_strip t \<and> str_upper lib t = ascii_upper t
         \<and> bytes_decode lib t = t)
      \<and> (\<forall>t raw. b64decode t = Some raw \<longrightarrow> b64decode_validate lib t = Some raw))"

section \<open>Concrete states and save files used in the examples\<close>

text \<open>
  A state standing at \<open>core.relic\<close> with that node's requirements met, and three save
  files: one that names a node that is not in the table, one that names \<open>core.relic\<close>
  and nothing else, and one that names \<open>market.node\<close> and nothing else. Each of the
  three is a JSON object with the single key \<open>location\<close>.
\<close>

definition relic_state :: state where
  "relic_state =
     \<lparr>handle = ''neo'',
      location = ''core.relic'',
      inventory = {|''relay.shard'', ''relic.key''|},
      scripts = {||},
      flags = {|''lattice_sigil'', ''forked''|},
      discovered = {|''hub.home'', ''core.relic''|},
      log = [],
      visited = {|''core.relic''|},
      last_cipher = None,
      ended = False\<rparr>"

definition only_location :: "string \<Rightarrow> saved" where
  "only_location node_id =
     \<lparr>saved_handle = None,
      saved_location = Some node_id,
      saved_inventory = None,
      saved_scripts = None,
      saved_flags = None,
      saved_discovered = None,
      saved_log = None,
      saved_visited = None,
      saved_last_cipher = None,
      saved_ended = None\<rparr>"

definition stray_state :: state where
  "stray_state =
     \<lparr>handle = ''ghost'',
      location = ''hub.home'',
      inventory = {||},
      scripts = {||},
      flags = {||},
      discovered = {|''market.node''|},
      log = [''Entered market.node'', ''Entered hub.home''],
      visited = {|''hub.home'', ''market.node''|},
      last_cipher = None,
      ended = False\<rparr>"

section \<open>Discovery\<close>


lemma first_occ_Cons:
  "rev (remdups (rev (x # xs))) = x # filter (\<lambda>y. y \<noteq> x) (rev (remdups (rev xs)))"
proof -
  have "remdups (ys @ [x]) = filter (\<lambda>y. y \<noteq> x) (remdups ys) @ [x]" for ys :: "'a list"
    by (induction ys) auto
  then show ?thesis by (simp add: rev_filter)
qed

lemma discover_state:
  "fst (discover s nodes) = s\<lparr>discovered := discovered s |\<union>| fset_of_list nodes\<rparr>"
proof (induction nodes arbitrary: s)
  case Nil
  show ?case by simp
next
  case (Cons n ns)
  show ?case
  proof (cases "n |\<in>| discovered s")
    case True
    then have "discovered s |\<union>| finsert n (fset_of_list ns) = discovered s |\<union>| fset_of_list ns"
      by auto
    with True Cons show ?thesis by simp
  next
    case False
    then show ?thesis using Cons[of "s\<lparr>discovered := finsert n (discovered s)\<rparr>"]
      by (simp add: case_prod_unfold)
  qed
qed

lemma discover_added:
  "snd (discover s nodes) =
     filter (\<lambda>n. n |\<notin>| discovered s) (rev (remdups (rev nodes)))"
proof (induction nodes arbitrary: s)
  case Nil
  show ?case by simp
next
  case (Cons n ns)
  show ?case
  proof (cases "n |\<in>| discovered s")
    case True
    have "filter (\<lambda>x. x |\<notin>| discovered s) (filter (\<lambda>y. y \<noteq> n) (rev (remdups (rev ns))))
        = filter (\<lambda>x. x |\<notin>| discovered s) (rev (remdups (rev ns)))"
      using True by (auto intro: filter_cong)
    with True Cons[of s] show ?thesis
      by (simp only: first_occ_Cons discover.simps) simp
  next
    case False
    have "filter (\<lambda>x. x |\<notin>| discovered s) (filter (\<lambda>y. y \<noteq> n) (rev (remdups (rev ns))))
        = filter (\<lambda>x. x |\<notin>| finsert n (discovered s)) (rev (remdups (rev ns)))"
      by (auto intro: filter_cong)
    with False Cons[of "s\<lparr>discovered := finsert n (discovered s)\<rparr>"] show ?thesis
      by (simp only: first_occ_Cons discover.simps) (simp add: case_prod_unfold)
  qed
qed

lemma discover_subseq: "subseq (snd (discover s nodes)) nodes"
proof (induction nodes arbitrary: s)
  case Nil
  show ?case by simp
next
  case (Cons n ns)
  show ?case
    using Cons[of s] Cons[of "s\<lparr>discovered := finsert n (discovered s)\<rparr>"]
    by (auto simp: case_prod_unfold)
qed

lemma discover_again: "discover (fst (discover s nodes)) nodes = (fst (discover s nodes), [])"
proof -
  have "\<forall>n\<in>set nodes. n |\<in>| discovered t \<Longrightarrow> discover t nodes = (t, [])" for t
    by (induction nodes) auto
  moreover have "\<forall>n\<in>set nodes. n |\<in>| discovered (fst (discover s nodes))"
    by (simp add: discover_state fset_of_list_elem)
  ultimately show ?thesis by blast
qed

text \<open>
  Claim C7. For every state and every list of node ids, \<open>discover\<close> changes nothing but
  \<open>discovered\<close>, which becomes the old set together with the given ids; it returns the ids
  that were not yet discovered, each once, at its first occurrence and in input order (a
  subsequence of the input); no entry is removed; a second call with the same ids leaves
  the state as it is and returns the empty list.
\<close>


theorem discover_monotone_idempotent:
  "fst (discover s nodes) = s\<lparr>discovered := discovered s |\<union>| fset_of_list nodes\<rparr>
   \<and> snd (discover s nodes) =
       filter (\<lambda>n. n |\<notin>| discovered s) (rev (remdups (rev nodes)))
   \<and> subseq (snd (discover s nodes)) nodes
   \<and> distinct (snd (discover s nodes))
   \<and> set (snd (discover s nodes)) = set nodes - fset (discovered s)
   \<and> discovered s |\<subseteq>| discovered (fst (discover s nodes))
   \<and> discover (fst (discover s nodes)) nodes = (fst (discover s nodes), [])"
proof -
  have d: "distinct (snd (discover s nodes))"
    by (simp add: discover_added)
  have e: "set (snd (discover s nodes)) = set nodes - fset (discovered s)"
    by (auto simp: discover_added)
  have f: "discovered s |\<subseteq>| discovered (fst (discover s nodes))"
    by (simp add: discover_state)
  show ?thesis
    by (intro conjI discover_state discover_added discover_subseq discover_again d e f)
qed

theorem discover_monotone_idempotent_witness:
  "snd (discover (fresh_state ''neo'') [''market.node'', ''hub.home'', ''market.node''])
     = [''market.node'']
   \<and> discover (fst (discover (fresh_state ''neo'') [''market.node'', ''hub.home'', ''market.node'']))
         [''market.node'', ''hub.home'', ''market.node'']
     = (fst (discover (fresh_state ''neo'') [''market.node'', ''hub.home'', ''market.node'']), [])"
  using discover_monotone_idempotent[of "fresh_state ''neo''"
      "[''market.node'', ''hub.home'', ''market.node'']"]
  by (simp add: fresh_state_def)


section \<open>The gate evaluator\<close>

text \<open>
  Claim C1. For every node id of the table and every state, \<open>requirements_for\<close> returns
  \<open>ok\<close> exactly when every required item is in the inventory and every required flag is
  in the flags, together with the missing items and the missing flags in the order of
  the node's lists. It returns no state (it does not write to it), and two states with
  the same inventory and flags give the same result.
\<close>


theorem requirements_for_gate:
  assumes "map_of NODES N = Some n"
  shows "requirements_for s N =
           Inr ((\<forall>item \<in> set (entry_items n). item |\<in>| inventory s) \<and>
                (\<forall>flag \<in> set (entry_flags n). flag |\<in>| flags s),
                filter (\<lambda>item. item |\<notin>| inventory s) (entry_items n),
                filter (\<lambda>flag. flag |\<notin>| flags s) (entry_flags n))
         \<and> (\<forall>s'. inventory s' = inventory s \<and> flags s' = flags s \<longrightarrow>
                requirements_for s' N = requirements_for s N)"
  using assms by (auto simp: requirements_for_def Let_def filter_empty_conv)

lemma lookup_lattice_cache: "map_of NODES ''lattice.cache'' = Some node_lattice_cache"
  by (simp add: NODES_def)

theorem requirements_for_gate_witness:
  "map_of NODES ''lattice.cache'' = Some node_lattice_cache
   \<and> requirements_for ((fresh_state ''neo'')\<lparr>inventory := {|''weaver.mark''|}\<rparr>) ''lattice.cache''
       = Inr (False, [''token.key''], [''lattice_sigil''])
   \<and> requirements_for ((fresh_state ''neo'')\<lparr>inventory := {|''weaver.mark''|},
          location := ''market.node'', log := [''x'']\<rparr>) ''lattice.cache''
       = Inr (False, [''token.key''], [''lattice_sigil''])"
proof -
  let ?s = "(fresh_state ''neo'')\<lparr>inventory := {|''weaver.mark''|}\<rparr>"
  let ?t = "(fresh_state ''neo'')\<lparr>inventory := {|''weaver.mark''|},
          location := ''market.node'', log := [''x'']\<rparr>"
  note g = requirements_for_gate[OF lookup_lattice_cache, of ?s]
  have a: "requirements_for ?s ''lattice.cache'' = Inr (False, [''token.key''], [''lattice_sigil''])"
    using g by (simp add: node_lattice_cache_def fresh_state_def)
  have "inventory ?t = inventory ?s \<and> flags ?t = flags ?s" by simp
  with g have "requirements_for ?t ''lattice.cache'' = requirements_for ?s ''lattice.cache''"
    by blast
  with a lookup_lattice_cache show ?thesis by simp
qed

section \<open>The splice script\<close>

text \<open>
  Claim C5. When \<open>token.key\<close> is not owned and one of \<open>badge.sig\<close>, \<open>mask.dat\<close>,
  \<open>weaver.mark\<close> is missing, running \<open>splice\<close> shows the missing ones among the three, in
  that order, and returns the state unchanged.
\<close>


theorem splice_blocked:
  assumes "''token.key'' |\<notin>| inventory s"
    and "\<exists>item \<in> set [''badge.sig'', ''mask.dat'', ''weaver.mark'']. item |\<notin>| inventory s"
  shows "run_script s ''splice'' =
           (s, [''Splice failed. Missing: '' @
                join '', '' (filter (\<lambda>item. item |\<notin>| inventory s)
                               [''badge.sig'', ''mask.dat'', ''weaver.mark''])])"
  using assms unfolding run_script_def by (simp add: Let_def filter_empty_conv)

theorem splice_blocked_witness:
  "''token.key'' |\<notin>| inventory ((fresh_state ''neo'')\<lparr>inventory := {|''badge.sig'', ''mask.dat''|}\<rparr>)
   \<and> (\<exists>item \<in> set [''badge.sig'', ''mask.dat'', ''weaver.mark''].
         item |\<notin>| inventory ((fresh_state ''neo'')\<lparr>inventory := {|''badge.sig'', ''mask.dat''|}\<rparr>))
   \<and> run_script ((fresh_state ''neo'')\<lparr>inventory := {|''badge.sig'', ''mask.dat''|}\<rparr>) ''splice''
       = ((fresh_state ''neo'')\<lparr>inventory := {|''badge.sig'', ''mask.dat''|}\<rparr>,
          [''Splice failed. Missing: weaver.mark''])"
proof -
  let ?s = "(fresh_state ''neo'')\<lparr>inventory := {|''badge.sig'', ''mask.dat''|}\<rparr>"
  have h1: "''token.key'' |\<notin>| inventory ?s" by simp
  have h2: "\<exists>item \<in> set [''badge.sig'', ''mask.dat'', ''weaver.mark'']. item |\<notin>| inventory ?s"
    by simp
  show ?thesis using h1 h2 splice_blocked[OF h1 h2] by simp
qed

section \<open>rot13\<close>


lemma shift13:
  fixes a n :: nat
  assumes "a \<le> n" "n \<le> a + 25"
  shows "a + (n - a + 13) mod 26 = (if n < a + 13 then n + 13 else n - 13)"
proof (cases "n < a + 13")
  case True
  then have "(n - a + 13) mod 26 = n - a + 13" by simp
  with True assms show ?thesis by simp
next
  case False
  then have "n - a + 13 = (n - a - 13) + 26" by simp
  then have "(n - a + 13) mod 26 = (n - a - 13) mod 26" by (metis mod_add_self2)
  also have "\<dots> = n - a - 13" using assms by simp
  finally show ?thesis using False assms by simp
qed

lemma rot13_char_upper_val:
  assumes "65 \<le> (of_char c :: nat)" "(of_char c :: nat) \<le> 90"
  shows "(of_char (rot13_char c) :: nat) =
           (if (of_char c :: nat) < 78 then of_char c + 13 else of_char c - 13)"
proof -
  have "rot13_char c = char_of (65 + ((of_char c :: nat) - 65 + 13) mod 26)"
    using assms by (simp add: rot13_char_def Let_def)
  also have "65 + ((of_char c :: nat) - 65 + 13) mod 26 =
      (if (of_char c :: nat) < 78 then of_char c + 13 else of_char c - 13)"
    using shift13[of 65 "of_char c"] assms by simp
  finally show ?thesis using assms by simp
qed

lemma rot13_char_lower_val:
  assumes "97 \<le> (of_char c :: nat)" "(of_char c :: nat) \<le> 122"
  shows "(of_char (rot13_char c) :: nat) =
           (if (of_char c :: nat) < 110 then of_char c + 13 else of_char c - 13)"
proof -
  have "rot13_char c = char_of (97 + ((of_char c :: nat) - 97 + 13) mod 26)"
    using assms by (simp add: rot13_char_def Let_def)
  also have "97 + ((of_char c :: nat) - 97 + 13) mod 26 =
      (if (of_char c :: nat) < 110 then of_char c + 13 else of_char c - 13)"
    using shift13[of 97 "of_char c"] assms by simp
  finally show ?thesis using assms by simp
qed

lemma rot13_char_upper:
  assumes "65 \<le> (of_char c :: nat)" "(of_char c :: nat) \<le> 90"
  shows "65 \<le> (of_char (rot13_char c) :: nat) \<and> (of_char (rot13_char c) :: nat) \<le> 90
         \<and> (int (of_char (rot13_char c)) - int (of_char c)) mod 26 = 13"
  using assms by (auto simp: rot13_char_upper_val)

lemma rot13_char_lower:
  assumes "97 \<le> (of_char c :: nat)" "(of_char c :: nat) \<le> 122"
  shows "97 \<le> (of_char (rot13_char c) :: nat) \<and> (of_char (rot13_char c) :: nat) \<le> 122
         \<and> (int (of_char (rot13_char c)) - int (of_char c)) mod 26 = 13"
  using assms by (auto simp: rot13_char_lower_val)

lemma rot13_char_other:
  "\<not> (65 \<le> (of_char c :: nat) \<and> (of_char c :: nat) \<le> 90) \<Longrightarrow>
   \<not> (97 \<le> (of_char c :: nat) \<and> (of_char c :: nat) \<le> 122) \<Longrightarrow> rot13_char c = c"
  by (auto simp: rot13_char_def Let_def)

lemma rot13_char_twice: "rot13_char (rot13_char c) = c"
proof -
  define n where "n = (of_char c :: nat)"
  consider (up) "65 \<le> n \<and> n \<le> 90" | (lo) "97 \<le> n \<and> n \<le> 122"
    | (other) "\<not> (65 \<le> n \<and> n \<le> 90) \<and> \<not> (97 \<le> n \<and> n \<le> 122)" by blast
  then show ?thesis
  proof cases
    case up
    define d where "d = rot13_char c"
    have 1: "(of_char d :: nat) = (if n < 78 then n + 13 else n - 13)"
      using rot13_char_upper_val[of c] up unfolding d_def n_def by simp
    then have r: "65 \<le> (of_char d :: nat) \<and> (of_char d :: nat) \<le> 90" using up by auto
    have "(of_char (rot13_char d) :: nat) = n"
      using rot13_char_upper_val[of d] r 1 up by (simp split: if_splits)
    then show ?thesis unfolding d_def n_def by simp
  next
    case lo
    define d where "d = rot13_char c"
    have 1: "(of_char d :: nat) = (if n < 110 then n + 13 else n - 13)"
      using rot13_char_lower_val[of c] lo unfolding d_def n_def by simp
    then have r: "97 \<le> (of_char d :: nat) \<and> (of_char d :: nat) \<le> 122" using lo by auto
    have "(of_char (rot13_char d) :: nat) = n"
      using rot13_char_lower_val[of d] r 1 lo by (simp split: if_splits)
    then show ?thesis unfolding d_def n_def by simp
  next
    case other
    then have "rot13_char c = c" unfolding n_def by (simp add: rot13_char_other)
    then show ?thesis by simp
  qed
qed

text \<open>
  Claim C10. Applying \<open>rot13\<close> twice returns the text. One application keeps the length,
  sends an upper-case ASCII letter to the upper-case letter 13 places further in the
  alphabet (modulo 26), a lower-case letter to the lower-case one, and leaves every other
  character as it is.
\<close>


theorem rot13_involution:
  "rot13 (rot13 x) = x
   \<and> length (rot13 x) = length x
   \<and> (\<forall>i < length x.
        (65 \<le> (of_char (x ! i) :: nat) \<and> (of_char (x ! i) :: nat) \<le> 90 \<longrightarrow>
           65 \<le> (of_char (rot13 x ! i) :: nat) \<and> (of_char (rot13 x ! i) :: nat) \<le> 90
           \<and> (int (of_char (rot13 x ! i)) - int (of_char (x ! i))) mod 26 = 13)
      \<and> (97 \<le> (of_char (x ! i) :: nat) \<and> (of_char (x ! i) :: nat) \<le> 122 \<longrightarrow>
           97 \<le> (of_char (rot13 x ! i) :: nat) \<and> (of_char (rot13 x ! i) :: nat) \<le> 122
           \<and> (int (of_char (rot13 x ! i)) - int (of_char (x ! i))) mod 26 = 13)
      \<and> (\<not> (65 \<le> (of_char (x ! i) :: nat) \<and> (of_char (x ! i) :: nat) \<le> 90)
           \<and> \<not> (97 \<le> (of_char (x ! i) :: nat) \<and> (of_char (x ! i) :: nat) \<le> 122) \<longrightarrow>
           rot13 x ! i = x ! i))"
proof -
  have a: "rot13 (rot13 x) = x"
    by (simp add: rot13_def rot13_char_twice comp_def)
  have b: "length (rot13 x) = length x" by (simp add: rot13_def)
  have c: "rot13 x ! i = rot13_char (x ! i)" if "i < length x" for i
    using that by (simp add: rot13_def)
  have d: "(65 \<le> (of_char (x ! i) :: nat) \<and> (of_char (x ! i) :: nat) \<le> 90 \<longrightarrow>
           65 \<le> (of_char (rot13 x ! i) :: nat) \<and> (of_char (rot13 x ! i) :: nat) \<le> 90
           \<and> (int (of_char (rot13 x ! i)) - int (of_char (x ! i))) mod 26 = 13)
      \<and> (97 \<le> (of_char (x ! i) :: nat) \<and> (of_char (x ! i) :: nat) \<le> 122 \<longrightarrow>
           97 \<le> (of_char (rot13 x ! i) :: nat) \<and> (of_char (rot13 x ! i) :: nat) \<le> 122
           \<and> (int (of_char (rot13 x ! i)) - int (of_char (x ! i))) mod 26 = 13)
      \<and> (\<not> (65 \<le> (of_char (x ! i) :: nat) \<and> (of_char (x ! i) :: nat) \<le> 90)
           \<and> \<not> (97 \<le> (of_char (x ! i) :: nat) \<and> (of_char (x ! i) :: nat) \<le> 122) \<longrightarrow>
           rot13 x ! i = x ! i)" if "i < length x" for i
    unfolding c[OF that]
    using rot13_char_upper[of "x ! i"] rot13_char_lower[of "x ! i"] rot13_char_other[of "x ! i"]
    by blast
  show ?thesis using a b d by blast
qed

theorem rot13_involution_witness:
  "rot13 (rot13 ''Ember-7'') = ''Ember-7'' \<and> rot13 ''Ember-7'' = ''Rzore-7''"
proof -
  have a: "rot13 ''Ember-7'' = ''Rzore-7''" by code_simp
  from rot13_involution[of "''Ember-7''"] have "rot13 (rot13 ''Ember-7'') = ''Ember-7''"
    by (rule conjunct1)
  with a show ?thesis by simp
qed

section \<open>Decoding and the flags it unlocks\<close>


lemma contains_sublist: "contains needle hay \<longleftrightarrow> sublist needle hay"
  by (induction hay) (auto simp: sublist_Cons_right)

lemma cmd_decode_alt:
  "cmd_decode lib s args =
     (if args = [] then Inr (s, [''Usage: decode rot13|b64 <text>''])
      else case (if falsy (if length args > 1 then Some (str_strip lib (join '' '' (tl args)))
                           else None)
                 then last_cipher s
                 else (if length args > 1 then Some (str_strip lib (join '' '' (tl args)))
                       else None)) of
             None \<Rightarrow> Inr (s, [''No cached cipher. Read a cipher file first.''])
           | Some payload \<Rightarrow>
               if payload = [] then Inr (s, [''No cached cipher. Read a cipher file first.''])
               else (case decode_text lib (lower (hd args)) payload of
                       Inl msg \<Rightarrow> Inr (s, [msg])
                     | Inr decoded \<Rightarrow> Inr (unlock lib s decoded, [''Decoded:'', decoded])))"
  unfolding cmd_decode_def unlock_def decode_text_def Let_def by (rule refl)

lemma cmd_decode_cases:
  "(\<exists>msg. cmd_decode lib s args = Inr (s, [msg])) \<or>
   (\<exists>decoded. cmd_decode lib s args = Inr (unlock lib s decoded, [''Decoded:'', decoded]))"
proof (cases "args = []")
  case True
  then show ?thesis by (simp add: cmd_decode_alt)
next
  case False
  define p where
    "p = (if falsy (if length args > 1 then Some (str_strip lib (join '' '' (tl args)))
                    else None)
          then last_cipher s
          else (if length args > 1 then Some (str_strip lib (join '' '' (tl args)))
                else None))"
  have eq: "cmd_decode lib s args =
      (case p of
             None \<Rightarrow> Inr (s, [''No cached cipher. Read a cipher file first.''])
           | Some payload \<Rightarrow>
               if payload = [] then Inr (s, [''No cached cipher. Read a cipher file first.''])
               else (case decode_text lib (lower (hd args)) payload of
                       Inl msg \<Rightarrow> Inr (s, [msg])
                     | Inr decoded \<Rightarrow> Inr (unlock lib s decoded, [''Decoded:'', decoded])))"
    unfolding p_def cmd_decode_alt using False by (simp only: if_False)
  show ?thesis
  proof (cases p)
    case None
    then show ?thesis unfolding eq by simp
  next
    case (Some payload)
    show ?thesis
    proof (cases "payload = []")
      case True
      then show ?thesis unfolding eq Some by simp
    next
      case False
      then show ?thesis unfolding eq Some
        by (cases "decode_text lib (lower (hd args)) payload") simp_all
    qed
  qed
qed

lemma cmd_decode_success:
  assumes "cmd_decode lib s args = Inr (s', [''Decoded:'', decoded])"
  shows "s' = unlock lib s decoded"
  using assms cmd_decode_cases[of lib s args] by auto

lemma unlock_flags:
  "flags (unlock lib s decoded) =
     flags s |\<union>| (if sublist ''EMBER'' (str_upper lib decoded) then {|''ember_phrase''|} else {||})
             |\<union>| (if sublist ''LATTICE'' (str_upper lib decoded) then {|''lattice_sigil''|}
                  else {||})"
  by (auto simp: unlock_def Let_def log_event_def contains_sublist)

lemma unlock_log:
  "log (unlock lib s decoded) =
     log s @ (if sublist ''EMBER'' (str_upper lib decoded) \<and> ''ember_phrase'' |\<notin>| flags s
              then [''Decoded ember phrase''] else [])
           @ (if sublist ''LATTICE'' (str_upper lib decoded) \<and> ''lattice_sigil'' |\<notin>| flags s
              then [''Decoded lattice sigil''] else [])"
  by (simp add: unlock_def Let_def log_event_def contains_sublist)

lemma unlock_rest: "(unlock lib s decoded)\<lparr>flags := flags s, log := log s\<rparr> = s"
  by (simp add: unlock_def Let_def log_event_def)

lemma ascii_library_agrees: "agrees_on_ascii ascii_library"
  by (simp add: agrees_on_ascii_def ascii_library_def)


lemma sigil_texts:
  "is_ascii ''U0lHSUw6IExBVFRJQ0U=''" "is_ascii ''SIGIL: LATTICE''"
  "ascii_strip ''U0lHSUw6IExBVFRJQ0U='' = ''U0lHSUw6IExBVFRJQ0U=''"
  "ascii_upper ''SIGIL: LATTICE'' = ''SIGIL: LATTICE''"
  "b64decode ''U0lHSUw6IExBVFRJQ0U='' = Some ''SIGIL: LATTICE''"
  "lower ''b64'' = ''b64''"
  "contains ''LATTICE'' ''SIGIL: LATTICE''"
  by code_simp+

lemma agrees_on_asciiD:
  assumes "agrees_on_ascii lib"
  shows "is_ascii t \<Longrightarrow> str_strip lib t = ascii_strip t"
    and "is_ascii t \<Longrightarrow> str_upper lib t = ascii_upper t"
    and "is_ascii t \<Longrightarrow> bytes_decode lib t = t"
    and "b64decode t = Some raw \<Longrightarrow> b64decode_validate lib t = Some raw"
  using assms unfolding agrees_on_ascii_def by blast+

lemma decode_sigil:
  assumes "agrees_on_ascii lib"
  shows "cmd_decode lib s [''b64'', ''U0lHSUw6IExBVFRJQ0U='']
           = Inr (unlock lib s ''SIGIL: LATTICE'', [''Decoded:'', ''SIGIL: LATTICE''])
         \<and> ''lattice_sigil'' |\<in>| flags (unlock lib s ''SIGIL: LATTICE'')"
proof -
  have a: "str_strip lib ''U0lHSUw6IExBVFRJQ0U='' = ''U0lHSUw6IExBVFRJQ0U=''"
    using agrees_on_asciiD(1)[OF assms sigil_texts(1)] sigil_texts(3) by simp
  have b: "bytes_decode lib ''SIGIL: LATTICE'' = ''SIGIL: LATTICE''"
    using agrees_on_asciiD(3)[OF assms sigil_texts(2)] .
  have c: "str_upper lib ''SIGIL: LATTICE'' = ''SIGIL: LATTICE''"
    using agrees_on_asciiD(2)[OF assms sigil_texts(2)] sigil_texts(4) by simp
  have b64: "b64decode_validate lib ''U0lHSUw6IExBVFRJQ0U='' = Some ''SIGIL: LATTICE''"
    using agrees_on_asciiD(4)[OF assms sigil_texts(5)] .
  have d: "decode_text lib ''b64'' ''U0lHSUw6IExBVFRJQ0U='' = Inr ''SIGIL: LATTICE''"
    by (simp add: decode_text_def b64 b)
  have e: "cmd_decode lib s [''b64'', ''U0lHSUw6IExBVFRJQ0U='']
           = Inr (unlock lib s ''SIGIL: LATTICE'', [''Decoded:'', ''SIGIL: LATTICE''])"
    unfolding cmd_decode_alt by (simp add: falsy_def a sigil_texts(6) d)
  have f: "''lattice_sigil'' |\<in>| flags (unlock lib s ''SIGIL: LATTICE'')"
    unfolding unlock_flags c using sigil_texts(7) by (simp add: contains_sublist)
  from e f show ?thesis by simp
qed

text \<open>
  Claim C9. Whenever \<open>cmd_decode\<close> succeeds (it shows \<open>Decoded:\<close> and the decoded text),
  the decoded text is put in upper case by \<open>str.upper()\<close> and searched for \<open>EMBER\<close> and
  for \<open>LATTICE\<close>: the flags become the old flags together with \<open>ember_phrase\<close> if the
  first word occurs and with \<open>lattice_sigil\<close> if the second occurs; the log gains one
  entry for each flag that was not set before, in that order; nothing else changes.
  The two checks are independent. This holds whatever the library functions return.
  With a library that acts on ASCII text as Python's does, decoding the base64 payload
  \<open>U0lHSUw6IExBVFRJQ0U=\<close> shows \<open>SIGIL: LATTICE\<close> and leaves \<open>lattice_sigil\<close> set.
\<close>

theorem decode_unlocks_flags:
  "(\<forall>s' decoded. cmd_decode lib s args = Inr (s', [''Decoded:'', decoded]) \<longrightarrow>
      flags s' =
        flags s |\<union>| (if sublist ''EMBER'' (str_upper lib decoded) then {|''ember_phrase''|}
                     else {||})
                |\<union>| (if sublist ''LATTICE'' (str_upper lib decoded) then {|''lattice_sigil''|}
                     else {||})
      \<and> log s' =
          log s @ (if sublist ''EMBER'' (str_upper lib decoded) \<and> ''ember_phrase'' |\<notin>| flags s
                   then [''Decoded ember phrase''] else [])
                @ (if sublist ''LATTICE'' (str_upper lib decoded) \<and> ''lattice_sigil'' |\<notin>| flags s
                   then [''Decoded lattice sigil''] else [])
      \<and> s'\<lparr>flags := flags s, log := log s\<rparr> = s)
   \<and> (agrees_on_ascii lib \<longrightarrow>
        (\<exists>s'. cmd_decode lib s [''b64'', ''U0lHSUw6IExBVFRJQ0U='']
                 = Inr (s', [''Decoded:'', ''SIGIL: LATTICE''])
              \<and> ''lattice_sigil'' |\<in>| flags s'))"
proof (intro conjI allI impI)
  fix s' decoded
  assume "cmd_decode lib s args = Inr (s', [''Decoded:'', decoded])"
  then have e: "s' = unlock lib s decoded" by (rule cmd_decode_success)
  show "flags s' =
        flags s |\<union>| (if sublist ''EMBER'' (str_upper lib decoded) then {|''ember_phrase''|}
                     else {||})
                |\<union>| (if sublist ''LATTICE'' (str_upper lib decoded) then {|''lattice_sigil''|}
                     else {||})"
    unfolding e by (rule unlock_flags)
  show "log s' =
          log s @ (if sublist ''EMBER'' (str_upper lib decoded) \<and> ''ember_phrase'' |\<notin>| flags s
                   then [''Decoded ember phrase''] else [])
                @ (if sublist ''LATTICE'' (str_upper lib decoded) \<and> ''lattice_sigil'' |\<notin>| flags s
                   then [''Decoded lattice sigil''] else [])"
    unfolding e by (rule unlock_log)
  show "s'\<lparr>flags := flags s, log := log s\<rparr> = s"
    unfolding e by (rule unlock_rest)
next
  assume "agrees_on_ascii lib"
  from decode_sigil[OF this, of s]
  show "\<exists>s'. cmd_decode lib s [''b64'', ''U0lHSUw6IExBVFRJQ0U='']
               = Inr (s', [''Decoded:'', ''SIGIL: LATTICE''])
            \<and> ''lattice_sigil'' |\<in>| flags s'"
    by blast
qed

lemma ember_texts:
  "ascii_strip ''rzore naq ynggvpr'' = ''rzore naq ynggvpr''"
  "lower ''ROT13'' = ''rot13''"
  "rot13 ''rzore naq ynggvpr'' = ''ember and lattice''"
  "ascii_upper ''ember and lattice'' = ''EMBER AND LATTICE''"
  "contains ''EMBER'' ''EMBER AND LATTICE''"
  "contains ''LATTICE'' ''EMBER AND LATTICE''"
  by code_simp+

lemma ascii_library_simps:
  "str_strip ascii_library = ascii_strip" "str_upper ascii_library = ascii_upper"
  "bytes_decode ascii_library raw = raw" "b64decode_validate ascii_library = b64decode"
  by (simp_all add: ascii_library_def)

lemma decode_ember:
  "cmd_decode ascii_library (fresh_state ''neo'') [''ROT13'', ''rzore'', ''naq'', ''ynggvpr'']
     = Inr (unlock ascii_library (fresh_state ''neo'') ''ember and lattice'',
            [''Decoded:'', ''ember and lattice''])"
proof -
  have c: "decode_text ascii_library ''rot13'' ''rzore naq ynggvpr'' = Inr ''ember and lattice''"
    by (simp add: decode_text_def ember_texts(3))
  show ?thesis unfolding cmd_decode_alt
    by (simp add: falsy_def ascii_library_simps ember_texts(1,2) c)
qed

theorem decode_unlocks_flags_witness:
  "agrees_on_ascii ascii_library
   \<and> cmd_decode ascii_library (fresh_state ''neo'') [''ROT13'', ''rzore'', ''naq'', ''ynggvpr'']
       = Inr (unlock ascii_library (fresh_state ''neo'') ''ember and lattice'',
              [''Decoded:'', ''ember and lattice''])
   \<and> flags (unlock ascii_library (fresh_state ''neo'') ''ember and lattice'')
       = {|''ember_phrase'', ''lattice_sigil''|}
   \<and> log (unlock ascii_library (fresh_state ''neo'') ''ember and lattice'')
       = [''Decoded ember phrase'', ''Decoded lattice sigil'']
   \<and> (\<exists>s'. cmd_decode ascii_library (fresh_state ''neo'') [''b64'', ''U0lHSUw6IExBVFRJQ0U='']
               = Inr (s', [''Decoded:'', ''SIGIL: LATTICE''])
            \<and> ''lattice_sigil'' |\<in>| flags s')"
proof -
  note t = decode_unlocks_flags[of ascii_library "fresh_state ''neo''"
      "[''ROT13'', ''rzore'', ''naq'', ''ynggvpr'']"]
  have up: "str_upper ascii_library ''ember and lattice'' = ''EMBER AND LATTICE''"
    by (simp add: ascii_library_simps ember_texts(4))
  from t decode_ember
  have "flags (unlock ascii_library (fresh_state ''neo'') ''ember and lattice'') =
          flags (fresh_state ''neo'')
            |\<union>| (if sublist ''EMBER'' (str_upper ascii_library ''ember and lattice'')
                 then {|''ember_phrase''|} else {||})
            |\<union>| (if sublist ''LATTICE'' (str_upper ascii_library ''ember and lattice'')
                 then {|''lattice_sigil''|} else {||})
        \<and> log (unlock ascii_library (fresh_state ''neo'') ''ember and lattice'') =
          log (fresh_state ''neo'')
            @ (if sublist ''EMBER'' (str_upper ascii_library ''ember and lattice'')
                  \<and> ''ember_phrase'' |\<notin>| flags (fresh_state ''neo'')
               then [''Decoded ember phrase''] else [])
            @ (if sublist ''LATTICE'' (str_upper ascii_library ''ember and lattice'')
                  \<and> ''lattice_sigil'' |\<notin>| flags (fresh_state ''neo'')
               then [''Decoded lattice sigil''] else [])"
    by blast
  then have a: "flags (unlock ascii_library (fresh_state ''neo'') ''ember and lattice'')
                  = {|''ember_phrase'', ''lattice_sigil''|}
                \<and> log (unlock ascii_library (fresh_state ''neo'') ''ember and lattice'')
                  = [''Decoded ember phrase'', ''Decoded lattice sigil'']"
    unfolding up using ember_texts(5,6) by (auto simp: fresh_state_def contains_sublist)
  from t ascii_library_agrees
  have b: "\<exists>s'. cmd_decode ascii_library (fresh_state ''neo'') [''b64'', ''U0lHSUw6IExBVFRJQ0U='']
               = Inr (s', [''Decoded:'', ''SIGIL: LATTICE''])
            \<and> ''lattice_sigil'' |\<in>| flags s'"
    by blast
  from ascii_library_agrees decode_ember a b show ?thesis by blast
qed

section \<open>Shared evaluation lemmas\<close>


lemma lower_words:
  "lower ''restore'' = ''restore''" "lower ''exfiltrate'' = ''exfiltrate''"
  "lower ''load'' = ''load''" "lower ''home'' = ''home''"
  by code_simp+

lemma NODES_keys:
  "map_of NODES node_id = Some n \<Longrightarrow>
     node_id \<in> set [''hub.home'', ''market.node'', ''weaver.den'', ''corp.audit'',
       ''lattice.cache'', ''perimeter.gate'', ''archives.arc'', ''core.relic'']"
  by (simp add: NODES_def split: if_splits)

lemma lookup_hub_home: "map_of NODES ''hub.home'' = Some node_hub_home"
  by (simp add: NODES_def)

lemma lookup_core_relic: "map_of NODES ''core.relic'' = Some node_core_relic"
  by (simp add: NODES_def)

lemma lookup_market_node: "map_of NODES ''market.node'' = Some node_market_node"
  by (simp add: NODES_def)

lemma lookup_nowhere: "map_of NODES ''nowhere'' = None"
  by (simp add: NODES_def)

section \<open>How the commands change the state\<close>


lemma grows_refl: "grows s s"
  by (simp add: grows_def)

lemma grows_enter_node:
  assumes "enter_node s n = Inr (s', out)"
  shows "grows s s' \<and> location s' = n"
  using assms
  by (auto simp: enter_node_def Let_def log_event_def grows_def split: option.splits if_splits)

lemma grows_unlock: "grows s (unlock lib s decoded) \<and> location (unlock lib s decoded) = location s"
  by (auto simp: unlock_def Let_def log_event_def grows_def)

lemma grows_run_script:
  "grows s (fst (run_script s sid)) \<and> location (fst (run_script s sid)) = location s"
proof -
  consider (tracer) "sid = ''tracer''" | (spoof) "sid = ''spoof''" | (sniffer) "sid = ''sniffer''"
    | (splice) "sid = ''splice''" | (ghost) "sid = ''ghost''" | (fork) "sid = ''fork''"
    | (other) "sid \<notin> set [''tracer'', ''spoof'', ''sniffer'', ''splice'', ''ghost'', ''fork'']"
    by auto
  then show ?thesis
  proof cases
    case tracer
    then show ?thesis
      by (auto simp: run_script_def case_prod_unfold discover_state log_event_def grows_def
          simp del: discover.simps)
  next
    case spoof
    then show ?thesis
      by (auto simp: run_script_def log_event_def grows_def)
  next
    case sniffer
    then show ?thesis
      by (auto simp: run_script_def case_prod_unfold discover_state log_event_def grows_def
          simp del: discover.simps)
  next
    case splice
    then show ?thesis
      by (auto simp: run_script_def Let_def log_event_def grows_def)
  next
    case ghost
    then show ?thesis
      by (auto simp: run_script_def case_prod_unfold discover_state log_event_def grows_def
          simp del: discover.simps)
  next
    case fork
    then show ?thesis
      by (auto simp: run_script_def case_prod_unfold discover_state log_event_def grows_def
          simp del: discover.simps)
  next
    case other
    then show ?thesis
      by (simp add: run_script_def grows_def)
  qed
qed

lemma grows_cmd_connect:
  assumes "cmd_connect s args = Inr (s', out)"
  shows "grows s s' \<and> (location s' = location s \<or> location s' |\<in>| discovered s)"
proof (cases "s' = s")
  case True
  then show ?thesis by (simp add: grows_refl)
next
  case False
  with assms have "enter_node s (hd args) = Inr (s', out) \<and> hd args |\<in>| discovered s"
    by (auto simp: cmd_connect_def Let_def split: if_splits sum.splits)
  then have e: "enter_node s (hd args) = Inr (s', out)" and d: "hd args |\<in>| discovered s"
    by simp_all
  from grows_enter_node[OF e] d show ?thesis by simp
qed

lemma grows_cmd_cat:
  assumes "cmd_cat s args = Inr (s', out)"
  shows "grows s s' \<and> location s' = location s"
  using assms
  by (auto simp: cmd_cat_def Let_def log_event_def grows_def
      split: if_splits sum.splits option.splits)

lemma grows_cmd_download:
  assumes "cmd_download s args = Inr (s', out)"
  shows "grows s s' \<and> location s' = location s"
  using assms
  by (auto simp: cmd_download_def Let_def log_event_def grows_def
      split: if_splits sum.splits option.splits)

lemma grows_cmd_run:
  assumes "cmd_run s args = Inr (s', out)"
  shows "grows s s' \<and> location s' = location s"
proof -
  from assms have "s' = s \<or> (\<exists>sid. s' = fst (run_script s sid))"
    by (auto simp: cmd_run_def Let_def case_prod_unfold split: if_splits sum.splits)
       (metis fst_conv)+
  then show ?thesis using grows_run_script grows_refl by auto
qed

lemma grows_cmd_decode:
  assumes "cmd_decode lib s args = Inr (s', out)"
  shows "grows s s' \<and> location s' = location s"
  using assms cmd_decode_cases[of lib s args] grows_unlock grows_refl by auto

lemma grows_endings:
  "cmd_exfiltrate s args = Inr (s', out) \<Longrightarrow> grows s s' \<and> location s' = location s"
  "cmd_restore s args = Inr (s', out) \<Longrightarrow> grows s s' \<and> location s' = location s"
  by (auto simp: cmd_exfiltrate_def cmd_restore_def log_event_def grows_def split: if_splits)

lemma informational:
  "cmd_help s args = Inr (s', out) \<Longrightarrow> s' = s"
  "cmd_scan s args = Inr (s', out) \<Longrightarrow> s' = s"
  "cmd_ls s args = Inr (s', out) \<Longrightarrow> s' = s"
  "cmd_inventory s args = Inr (s', out) \<Longrightarrow> s' = s"
  "cmd_profile s args = Inr (s', out) \<Longrightarrow> s' = s"
  "cmd_log s args = Inr (s', out) \<Longrightarrow> s' = s"
  by (auto simp: cmd_help_def cmd_scan_def cmd_ls_def cmd_inventory_def cmd_profile_def
      cmd_log_def Let_def split: if_splits sum.splits)

lemma with_disk_Inr:
  "with_disk d r = Inr (s', d', out) \<Longrightarrow> r = Inr (s', out) \<and> d' = d"
  by (auto simp: with_disk_def split: sum.splits)

lemma handle_command_dispatch:
  assumes "handle_command lib s d (Some parts) = Inr (s', d', out)"
  shows "(s' = s \<and> d' = d)
       \<or> (d' = d \<and> cmd_connect s (tl parts) = Inr (s', out))
       \<or> (d' = d \<and> cmd_cat s (tl parts) = Inr (s', out))
       \<or> (d' = d \<and> cmd_download s (tl parts) = Inr (s', out))
       \<or> (d' = d \<and> cmd_run s (tl parts) = Inr (s', out))
       \<or> (d' = d \<and> cmd_decode lib s (tl parts) = Inr (s', out))
       \<or> (d' = d \<and> cmd_home s (tl parts) = Inr (s', out))
       \<or> (d' = d \<and> cmd_exfiltrate s (tl parts) = Inr (s', out))
       \<or> (d' = d \<and> cmd_restore s (tl parts) = Inr (s', out))
       \<or> (d' = d \<and> parts \<noteq> [] \<and> lower (hd parts) = ''load''
            \<and> cmd_load s d (tl parts) = Inr (s', out))
       \<or> (s' = s \<and> d' = Some (Record (serialize_state s)))"
  using assms unfolding handle_command_def Let_def
  by (simp split: if_splits add: cmd_save_def)
     (auto dest!: with_disk_Inr dest: informational)

lemma handle_command_malformed: "handle_command lib s d None = Inr (s, d, [''Malformed command.''])"
  by (simp add: handle_command_def)

lemma ended_only_reset_by_load:
  assumes "handle_command lib s d (Some parts) = Inr (s', d', out)" and "ended s"
  shows "ended s' \<or> (parts \<noteq> [] \<and> lower (hd parts) = ''load'')"
  using handle_command_dispatch[OF assms(1)] assms(2)
    grows_cmd_connect[of s _ s' out] grows_cmd_cat[of s _ s' out]
    grows_cmd_download[of s _ s' out] grows_cmd_run[of s _ s' out]
    grows_cmd_decode[of lib s _ s' out] grows_endings[of s _ s' out]
    grows_enter_node[of s "''hub.home''" s' out]
  unfolding cmd_home_def grows_def by blast

section \<open>Commands after an ending\<close>

text \<open>No command reads \<open>ended\<close>: each gives the same result whatever its value.\<close>

lemma set_ended_simps [simp]:
  "set_ended b (Inl e) = Inl e"
  "set_ended b (Inr (s, out)) = Inr (s\<lparr>ended := b\<rparr>, out)"
  by (simp_all add: set_ended_def)

lemma requirements_for_ended [simp]:
  "requirements_for (s\<lparr>ended := b\<rparr>) node_id = requirements_for s node_id"
  by (simp add: requirements_for_def Let_def split: option.split)

lemma current_files_ended [simp]: "current_files (s\<lparr>ended := b\<rparr>) = current_files s"
  by (simp add: current_files_def split: option.split)

lemma discover_ended:
  "discover (s\<lparr>ended := b\<rparr>) nodes = ((fst (discover s nodes))\<lparr>ended := b\<rparr>, snd (discover s nodes))"
  by (rule prod_eqI) (simp_all add: discover_state discover_added)

lemma scan_lines_ended [simp]: "scan_lines (s\<lparr>ended := b\<rparr>) nodes = scan_lines s nodes"
  by (induction nodes) (simp_all add: Let_def split: sum.split prod.split)

lemma enter_node_ended:
  "enter_node (s\<lparr>ended := b\<rparr>) node_id = set_ended b (enter_node s node_id)"
  by (simp add: enter_node_def Let_def log_event_def split: option.split)

lemma cmd_help_ended: "cmd_help (s\<lparr>ended := b\<rparr>) args = set_ended b (cmd_help s args)"
  by (simp add: cmd_help_def)

lemma cmd_scan_ended: "cmd_scan (s\<lparr>ended := b\<rparr>) args = set_ended b (cmd_scan s args)"
  by (simp add: cmd_scan_def Let_def split: sum.split prod.split)

lemma cmd_ls_ended: "cmd_ls (s\<lparr>ended := b\<rparr>) args = set_ended b (cmd_ls s args)"
  by (simp add: cmd_ls_def split: sum.split)

lemma cmd_inventory_ended:
  "cmd_inventory (s\<lparr>ended := b\<rparr>) args = set_ended b (cmd_inventory s args)"
  by (simp add: cmd_inventory_def)

lemma cmd_profile_ended:
  "cmd_profile (s\<lparr>ended := b\<rparr>) args = set_ended b (cmd_profile s args)"
  by (simp add: cmd_profile_def)

lemma cmd_log_ended: "cmd_log (s\<lparr>ended := b\<rparr>) args = set_ended b (cmd_log s args)"
  by (simp add: cmd_log_def)

lemma cmd_connect_ended:
  "cmd_connect (s\<lparr>ended := b\<rparr>) args = set_ended b (cmd_connect s args)"
  by (simp add: cmd_connect_def Let_def enter_node_ended split: sum.split prod.split)

lemma cmd_cat_ended: "cmd_cat (s\<lparr>ended := b\<rparr>) args = set_ended b (cmd_cat s args)"
  by (simp add: cmd_cat_def Let_def log_event_def split: sum.split option.split)

lemma cmd_download_ended:
  "cmd_download (s\<lparr>ended := b\<rparr>) args = set_ended b (cmd_download s args)"
  by (simp add: cmd_download_def Let_def log_event_def split: sum.split option.split)


lemma run_script_ended:
  "run_script (s\<lparr>ended := b\<rparr>) sid =
     ((fst (run_script s sid))\<lparr>ended := b\<rparr>, snd (run_script s sid))"
proof -
  consider (tracer) "sid = ''tracer''" | (spoof) "sid = ''spoof''" | (sniffer) "sid = ''sniffer''"
    | (splice) "sid = ''splice''" | (ghost) "sid = ''ghost''" | (fork) "sid = ''fork''"
    | (other) "sid \<notin> set [''tracer'', ''spoof'', ''sniffer'', ''splice'', ''ghost'', ''fork'']"
    by auto
  then show ?thesis
  proof cases
    case tracer
    then show ?thesis
      by (simp add: run_script_def case_prod_unfold discover_state discover_added log_event_def
            del: discover.simps)
  next
    case spoof
    then show ?thesis by (simp add: run_script_def log_event_def)
  next
    case sniffer
    then show ?thesis
      by (simp add: run_script_def case_prod_unfold discover_state discover_added log_event_def
            del: discover.simps)
  next
    case splice
    then show ?thesis by (simp add: run_script_def Let_def log_event_def)
  next
    case ghost
    then show ?thesis
      by (simp add: run_script_def case_prod_unfold discover_state discover_added log_event_def
            del: discover.simps)
  next
    case fork
    then show ?thesis
      by (simp add: run_script_def case_prod_unfold discover_state discover_added log_event_def
            del: discover.simps)
  next
    case other
    then show ?thesis by (simp add: run_script_def)
  qed
qed

lemma cmd_run_ended: "cmd_run (s\<lparr>ended := b\<rparr>) args = set_ended b (cmd_run s args)"
  by (simp add: cmd_run_def Let_def run_script_ended case_prod_unfold set_ended_def
        split: sum.split)

lemma unlock_ended:
  "unlock lib (s\<lparr>ended := b\<rparr>) decoded = (unlock lib s decoded)\<lparr>ended := b\<rparr>"
  by (simp add: unlock_def Let_def log_event_def)

lemma cmd_decode_ended:
  "cmd_decode lib (s\<lparr>ended := b\<rparr>) args = set_ended b (cmd_decode lib s args)"
  unfolding cmd_decode_alt
  by (simp add: unlock_ended split: option.split sum.split)

lemma cmd_home_ended: "cmd_home (s\<lparr>ended := b\<rparr>) args = set_ended b (cmd_home s args)"
  by (simp add: cmd_home_def enter_node_ended)


lemma forget_with_disk_set_ended:
  "forget_ended (with_disk d (set_ended b r)) = forget_ended (with_disk d r)"
  by (cases r) (auto simp: forget_ended_def with_disk_def)

lemma cmd_exfiltrate_forget:
  "forget_ended (with_disk d (cmd_exfiltrate (s\<lparr>ended := b\<rparr>) args))
     = forget_ended (with_disk d (cmd_exfiltrate s args))"
  by (simp add: cmd_exfiltrate_def forget_ended_def with_disk_def log_event_def)

lemma cmd_restore_forget:
  "forget_ended (with_disk d (cmd_restore (s\<lparr>ended := b\<rparr>) args))
     = forget_ended (with_disk d (cmd_restore s args))"
  by (simp add: cmd_restore_def forget_ended_def with_disk_def log_event_def)

lemma cmd_load_forget:
  "forget_ended (with_disk d (cmd_load (s\<lparr>ended := b\<rparr>) d args))
     = forget_ended (with_disk d (cmd_load s d args))"
  by (simp add: cmd_load_def forget_ended_def with_disk_def split: option.split sum.split)

lemma cmd_save_forget:
  "forget_ended (Inr (cmd_save (s\<lparr>ended := b\<rparr>) args)) = forget_ended (Inr (cmd_save s args))"
  by (simp add: cmd_save_def forget_ended_def serialize_state_def)

lemma forget_same_state:
  "forget_ended (Inr (s\<lparr>ended := b\<rparr>, d, out)) = forget_ended (Inr (s, d, out))"
  by (simp add: forget_ended_def)

lemma handle_command_ignores_ended:
  "forget_ended (handle_command lib (s\<lparr>ended := b\<rparr>) d line)
     = forget_ended (handle_command lib s d line)"
proof (cases line)
  case None
  then show ?thesis by (simp add: handle_command_def forget_same_state)
next
  case (Some parts)
  show ?thesis
    unfolding Some handle_command_def Let_def
    by (simp add: cmd_help_ended cmd_scan_ended cmd_connect_ended cmd_ls_ended cmd_cat_ended
          cmd_download_ended cmd_run_ended cmd_decode_ended cmd_inventory_ended
          cmd_profile_ended cmd_log_ended cmd_home_ended forget_with_disk_set_ended
          cmd_exfiltrate_forget cmd_restore_forget cmd_load_forget cmd_save_forget
          forget_same_state)
qed

text \<open>
  Claim C4, as the code has it. Once \<open>ended\<close> is true, it stays true under every
  command but \<open>load\<close>, and it blocks nothing: every command line gives the same error
  or the same output, save file and state as it gives from the same state with
  \<open>ended\<close> false, the field \<open>ended\<close> itself apart. In particular \<open>restore\<close> issued at
  \<open>core.relic\<close> leaves location, inventory, scripts, flags, discovered, visited,
  last_cipher and ended as they are and appends the entry \<open>Ending: restore\<close> to the
  log; issued anywhere else it leaves the whole state unchanged.
\<close>

theorem restore_after_ending:
  assumes "ended s"
  shows "cmd_restore s args =
           (if location s = ''core.relic''
            then Inr (s\<lparr>log := log s @ [''Ending: restore'']\<rparr>, [restore_text])
            else Inr (s, [''No target to restore here.'']))
         \<and> (\<forall>lib d parts s' d' out.
               handle_command lib s d (Some parts) = Inr (s', d', out) \<longrightarrow>
               ended s' \<or> (parts \<noteq> [] \<and> lower (hd parts) = ''load''))
         \<and> (\<forall>lib d line.
               forget_ended (handle_command lib s d line)
                 = forget_ended (handle_command lib (s\<lparr>ended := False\<rparr>) d line))"
proof -
  have a: "cmd_restore s args =
           (if location s = ''core.relic''
            then Inr (s\<lparr>log := log s @ [''Ending: restore'']\<rparr>, [restore_text])
            else Inr (s, [''No target to restore here.'']))"
    using assms by (simp add: cmd_restore_def log_event_def)
  have b: "ended s' \<or> (parts \<noteq> [] \<and> lower (hd parts) = ''load'')"
    if "handle_command lib s d (Some parts) = Inr (s', d', out)" for lib d parts s' d' out
    using ended_only_reset_by_load[OF that assms] .
  have c: "forget_ended (handle_command lib s d line)
             = forget_ended (handle_command lib (s\<lparr>ended := False\<rparr>) d line)" for lib d line
    by (rule handle_command_ignores_ended[where b = False, symmetric])
  from a b c show ?thesis by blast
qed

theorem restore_after_ending_witness:
  "ended (relic_state\<lparr>ended := True\<rparr>)
   \<and> cmd_restore (relic_state\<lparr>ended := True\<rparr>) []
       = Inr (relic_state\<lparr>ended := True, log := [''Ending: restore'']\<rparr>, [restore_text])
   \<and> handle_command ascii_library (relic_state\<lparr>ended := True\<rparr>) None (Some [''restore''])
       = Inr (relic_state\<lparr>ended := True, log := [''Ending: restore'']\<rparr>, None, [restore_text])
   \<and> ended (relic_state\<lparr>ended := True, log := [''Ending: restore'']\<rparr>)
   \<and> forget_ended (handle_command ascii_library (relic_state\<lparr>ended := True\<rparr>) None
         (Some [''restore'']))
       = forget_ended (handle_command ascii_library relic_state None (Some [''restore'']))"
proof -
  have h: "ended (relic_state\<lparr>ended := True\<rparr>)" by simp
  note t = restore_after_ending[OF h, of "[]"]
  have r: "handle_command ascii_library (relic_state\<lparr>ended := True\<rparr>) None (Some [''restore''])
       = Inr (relic_state\<lparr>ended := True, log := [''Ending: restore'']\<rparr>, None, [restore_text])"
    by (simp add: handle_command_def with_disk_def lower_words cmd_restore_def log_event_def
          relic_state_def)
  from t r
  have "ended (relic_state\<lparr>ended := True, log := [''Ending: restore'']\<rparr>)
        \<or> ([''restore''] \<noteq> [] \<and> lower (hd [''restore'']) = ''load'')"
    by blast
  then have e: "ended (relic_state\<lparr>ended := True, log := [''Ending: restore'']\<rparr>)"
    by (simp add: lower_words)
  have z: "relic_state\<lparr>ended := True, ended := False\<rparr> = relic_state"
    by (simp add: relic_state_def)
  from t have f: "forget_ended (handle_command ascii_library (relic_state\<lparr>ended := True\<rparr>) None
         (Some [''restore'']))
       = forget_ended (handle_command ascii_library
           (relic_state\<lparr>ended := True, ended := False\<rparr>) None (Some [''restore'']))"
    by blast
  have c: "cmd_restore (relic_state\<lparr>ended := True\<rparr>) []
       = Inr (relic_state\<lparr>ended := True, log := [''Ending: restore'']\<rparr>, [restore_text])"
    using t by (simp add: relic_state_def)
  show ?thesis using h c r e f[unfolded z] by blast
qed

text \<open>
  The claim as it was stated fails: after \<open>exfiltrate\<close> at \<open>core.relic\<close> has set
  \<open>ended\<close>, the command \<open>restore\<close> changes the log.
\<close>

theorem ended_restore_counterexample:
  "ended (relic_state\<lparr>ended := True, log := [''Ending: exfiltrate'']\<rparr>)
   \<and> handle_command ascii_library relic_state None (Some [''exfiltrate''])
       = Inr (relic_state\<lparr>ended := True, log := [''Ending: exfiltrate'']\<rparr>, None, [exfiltrate_text])
   \<and> handle_command ascii_library (relic_state\<lparr>ended := True, log := [''Ending: exfiltrate'']\<rparr>)
         None (Some [''restore''])
       = Inr (relic_state\<lparr>ended := True, log := [''Ending: exfiltrate'', ''Ending: restore'']\<rparr>,
              None, [restore_text])
   \<and> log (relic_state\<lparr>ended := True, log := [''Ending: exfiltrate'', ''Ending: restore'']\<rparr>)
       \<noteq> log (relic_state\<lparr>ended := True, log := [''Ending: exfiltrate'']\<rparr>)"
  by (simp add: handle_command_def with_disk_def lower_words cmd_exfiltrate_def cmd_restore_def
        log_event_def relic_state_def)

section \<open>Loading a save file\<close>


lemma load_state_location_discovered:
  "load_state f = Inr s \<Longrightarrow> location s |\<in>| discovered s"
  by (auto simp: load_state_def Let_def split: save_file.splits if_splits)

lemma load_state_handle:
  "load_state f = Inr s \<Longrightarrow> handle s \<noteq> []"
  by (auto simp: load_state_def Let_def fresh_state_def split: save_file.splits if_splits)

lemma cmd_load_failure:
  "cmd_load s None args = Inr (s, [''No save file found.''])"
  "cmd_load s (Some NotJSON) args = Inr (s, [''Failed to load save file.''])"
  by (simp_all add: cmd_load_def load_state_def)

lemma hub_home_open: "requirements_for s ''hub.home'' = Inr (True, [], [])"
  by (simp add: requirements_for_def lookup_hub_home node_hub_home_def)

lemma cmd_connect_gate:
  assumes "cmd_connect s args = Inr (s', out)" and "s' \<noteq> s"
  shows "location s' = hd args \<and> requirements_for s (hd args) = Inr (True, [], [])"
proof -
  from assms obtain ok mi mf where r: "requirements_for s (hd args) = Inr (ok, mi, mf)" and ok: ok
    and e: "enter_node s (hd args) = Inr (s', out)"
    by (auto simp: cmd_connect_def Let_def split: if_splits sum.splits)
  from r ok have "mi = [] \<and> mf = []"
    by (auto simp: requirements_for_def Let_def split: option.splits)
  moreover from e have "location s' = hd args"
    by (auto simp: enter_node_def Let_def log_event_def split: option.splits if_splits)
  ultimately show ?thesis using r ok by simp
qed

text \<open>
  Claim C6. A missing file and a file that is not JSON are reported and leave the state
  as it was (\<open>cmd_load_failure\<close>). A save file whose location is not a node of the
  table is different: \<open>load_state\<close> accepts it, and the \<open>KeyError\<close> of \<open>enter_node\<close>,
  raised after the \<open>try\<close> block, leaves \<open>cmd_load\<close> and \<open>handle_command\<close>.
\<close>


theorem load_unknown_location_raises:
  "load_state (Record (only_location ''nowhere''))
     = Inr ((fresh_state ''ghost'')\<lparr>location := ''nowhere'', discovered := {|''nowhere''|}\<rparr>)
   \<and> cmd_load (fresh_state ''neo'') (Some (Record (only_location ''nowhere''))) []
       = Inl (KeyError ''nowhere'')
   \<and> handle_command lib (fresh_state ''neo'') (Some (Record (only_location ''nowhere''))) (Some [''load''])
       = Inl (KeyError ''nowhere'')"
  by (simp add: handle_command_def with_disk_def lower_words cmd_load_def load_state_def
        only_location_def get_default_def fresh_state_def enter_node_def lookup_nowhere Let_def)

text \<open>
  Claim C2. \<open>cmd_connect\<close> enters a node only when the gate evaluator accepts it
  (\<open>cmd_connect_gate\<close>), and \<open>hub.home\<close> has no requirements (\<open>hub_home_open\<close>).
  \<open>cmd_load\<close> does not consult the gate evaluator: a save file that names \<open>core.relic\<close>
  and holds no items and no flags is installed, although the gate evaluator rejects
  \<open>core.relic\<close> for the installed state.
\<close>


theorem load_installs_locked_node:
  "cmd_load (fresh_state ''neo'') (Some (Record (only_location ''core.relic''))) []
     = Inr ((fresh_state ''ghost'')\<lparr>location := ''core.relic'', discovered := {|''core.relic''|},
              visited := {|''core.relic''|}, log := [''Entered core.relic'']\<rparr>,
            [''Save loaded.'', [], '':: core.relic :: '' @ title node_core_relic,
             desc node_core_relic])
   \<and> requirements_for
         ((fresh_state ''ghost'')\<lparr>location := ''core.relic'', discovered := {|''core.relic''|},
              visited := {|''core.relic''|}, log := [''Entered core.relic'']\<rparr>) ''core.relic''
       = Inr (False, [''relay.shard'', ''relic.key''], [''lattice_sigil'', ''forked''])"
  by (simp add: cmd_load_def load_state_def only_location_def get_default_def fresh_state_def
        enter_node_def lookup_core_relic Let_def log_event_def requirements_for_def
        node_core_relic_def)

section \<open>The start node and the discovered set\<close>


lemma load_state_roundtrip:
  assumes "handle s \<noteq> []" and "location s |\<in>| discovered s"
  shows "load_state (Record (serialize_state s)) = Inr s"
  using assms
  by (simp add: load_state_def serialize_state_def get_default_def fresh_state_def Let_def)


lemma home_known_step:
  assumes "home_known s" and "grows s s'"
    and "location s' = location s \<or> location s' |\<in>| discovered s \<or> location s' = ''hub.home''"
  shows "home_known s'"
  using assms by (auto simp: home_known_def grows_def)

lemma load_state_home_known:
  assumes "load_state f = Inr s" and "lists_home (Some f)"
  shows "home_known s"
proof (cases f)
  case NotJSON
  with assms show ?thesis by (simp add: load_state_def)
next
  case (Record data)
  with assms(2) have h: "''hub.home'' |\<in>| fset_of_list (get_default (saved_discovered data) [])"
    by (simp add: lists_home_def fset_of_list_elem)
  have n: "handle (fresh_state x) \<noteq> []" for x by (simp add: fresh_state_def)
  from assms(1) h n show ?thesis unfolding Record
    by (auto simp: load_state_def home_known_def Let_def split: if_splits)
qed

lemma cmd_load_home_known:
  assumes "cmd_load s d args = Inr (s', out)" and "home_known s" and "lists_home d"
  shows "home_known s'"
proof (cases "s' = s")
  case True
  with assms show ?thesis by simp
next
  case False
  with assms obtain f ns out' where f: "d = Some f" and l: "load_state f = Inr ns"
    and e: "enter_node ns (location ns) = Inr (s', out')"
    by (auto simp: cmd_load_def split: option.splits sum.splits)
  from l f assms(3) have "home_known ns" using load_state_home_known by blast
  moreover from grows_enter_node[OF e] have "grows ns s' \<and> location s' = location ns" .
  ultimately show ?thesis using home_known_step by blast
qed

lemma save_lists_home:
  "home_known s \<Longrightarrow> lists_home (Some (Record (serialize_state s)))"
  by (simp add: lists_home_def serialize_state_def get_default_def home_known_def)

lemma handle_command_home_known:
  assumes "handle_command lib s d line = Inr (s', d', out)" and "home_known s" and "lists_home d"
  shows "home_known s' \<and> lists_home d'"
proof (cases line)
  case None
  with assms show ?thesis by (simp add: handle_command_def)
next
  case (Some parts)
  note step = home_known_step[OF assms(2)]
  from handle_command_dispatch[OF assms(1)[unfolded Some]]
  consider (same) "s' = s \<and> d' = d"
    | (connect) "d' = d \<and> cmd_connect s (tl parts) = Inr (s', out)"
    | (cat) "d' = d \<and> cmd_cat s (tl parts) = Inr (s', out)"
    | (download) "d' = d \<and> cmd_download s (tl parts) = Inr (s', out)"
    | (run) "d' = d \<and> cmd_run s (tl parts) = Inr (s', out)"
    | (decode) "d' = d \<and> cmd_decode lib s (tl parts) = Inr (s', out)"
    | (home) "d' = d \<and> cmd_home s (tl parts) = Inr (s', out)"
    | (exfiltrate) "d' = d \<and> cmd_exfiltrate s (tl parts) = Inr (s', out)"
    | (restore) "d' = d \<and> cmd_restore s (tl parts) = Inr (s', out)"
    | (load) "d' = d \<and> cmd_load s d (tl parts) = Inr (s', out)"
    | (save) "s' = s \<and> d' = Some (Record (serialize_state s))"
    by blast
  then show ?thesis
  proof cases
    case same
    with assms show ?thesis by simp
  next
    case connect
    then show ?thesis using grows_cmd_connect[of s _ s' out] step assms(3) by blast
  next
    case cat
    then show ?thesis using grows_cmd_cat[of s _ s' out] step assms(3) by blast
  next
    case download
    then show ?thesis using grows_cmd_download[of s _ s' out] step assms(3) by blast
  next
    case run
    then show ?thesis using grows_cmd_run[of s _ s' out] step assms(3) by blast
  next
    case decode
    then show ?thesis using grows_cmd_decode[of lib s _ s' out] step assms(3) by blast
  next
    case home
    then show ?thesis
      using grows_enter_node[of s "''hub.home''" s' out] step assms(3)
      unfolding cmd_home_def by blast
  next
    case exfiltrate
    then show ?thesis using grows_endings(1)[of s _ s' out] step assms(3) by blast
  next
    case restore
    then show ?thesis using grows_endings(2)[of s _ s' out] step assms(3) by blast
  next
    case load
    then show ?thesis using cmd_load_home_known[of s d _ s' out] assms(2,3) by blast
  next
    case save
    then show ?thesis using assms(2) save_lists_home by simp
  qed
qed

lemma command_loop_home_known:
  "command_loop lib s d lines = Inr (s', d') \<Longrightarrow> home_known s \<Longrightarrow> lists_home d \<Longrightarrow>
     home_known s' \<and> lists_home d'"
proof (induction lines arbitrary: s d)
  case Nil
  then show ?case by simp
next
  case (Cons line lines)
  from Cons.prems(1) obtain s1 d1 out where h: "handle_command lib s d line = Inr (s1, d1, out)"
    and l: "command_loop lib s1 d1 lines = Inr (s', d')"
    by (auto split: sum.splits)
  from handle_command_home_known[OF h Cons.prems(2,3)] Cons.IH[OF l] show ?case by simp
qed

lemma fresh_state_home_known: "home_known (fresh_state h)"
  by (simp add: home_known_def fresh_state_def)

lemma start_state_home_known:
  assumes "lists_home d"
  shows "home_known (start_state lib d answer name)"
proof (cases d)
  case None
  then show ?thesis by (simp add: start_state_def fresh_state_home_known)
next
  case (Some f)
  show ?thesis
  proof (cases "load_state f")
    case (Inl e)
    then show ?thesis by (simp add: start_state_def Some fresh_state_home_known)
  next
    case (Inr s)
    with assms Some have "home_known s" using load_state_home_known by blast
    with Inr show ?thesis by (simp add: start_state_def Some fresh_state_home_known)
  qed
qed

lemma main_home_known:
  assumes "main lib d answer name lines = Inr (s, d')" and "lists_home d"
  shows "home_known s \<and> lists_home d'"
proof -
  let ?s0 = "start_state lib d answer name"
  from assms(1) obtain s1 out where e: "enter_node ?s0 (location ?s0) = Inr (s1, out)"
    and l: "command_loop lib s1 d lines = Inr (s, d')"
    by (auto simp: main_def Let_def split: sum.splits)
  from grows_enter_node[OF e] start_state_home_known[OF assms(2), of lib answer name]
  have "home_known s1" using home_known_step by blast
  from command_loop_home_known[OF l this assms(2)] show ?thesis .
qed

lemma main_roundtrip:
  assumes "main lib d answer name lines = Inr (s, d')" and "lists_home d"
  shows "load_state (Record (serialize_state s)) = Inr s"
  using main_home_known[OF assms] by (simp add: home_known_def load_state_roundtrip)

text \<open>
  Claim C8. A fresh state has the start node as its location and as its only
  discovered node (\<open>fresh_state_home_known\<close>), \<open>load_state\<close> adds the loaded location
  to \<open>discovered\<close> (\<open>load_state_location_discovered\<close>), and the containment holds
  throughout a run whose save file lists the start node (\<open>main_home_known\<close>). But
  neither \<open>load_state\<close> nor \<open>cmd_home\<close> adds \<open>hub.home\<close>: after loading a save file
  that names \<open>market.node\<close> and lists no discovered nodes, \<open>home\<close> leaves the player at
  \<open>hub.home\<close> with \<open>hub.home\<close> not in \<open>discovered\<close>.
\<close>


theorem home_after_load_leaves_discovered:
  "command_loop lib (fresh_state ''neo'') (Some (Record (only_location ''market.node'')))
       [Some [''load''], Some [''home'']]
     = Inr (stray_state, Some (Record (only_location ''market.node'')))
   \<and> location stray_state |\<notin>| discovered stray_state"
  by (simp add: handle_command_def with_disk_def lower_words cmd_load_def cmd_home_def
        load_state_def only_location_def get_default_def fresh_state_def enter_node_def
        lookup_market_node lookup_hub_home Let_def log_event_def stray_state_def)

text \<open>
  Claim C3. For a state with a non-empty handle whose location is in \<open>discovered\<close>,
  loading what \<open>serialize_state\<close> wrote gives the state back (\<open>load_state_roundtrip\<close>);
  every state the program reaches is of that kind when the save file it starts with
  lists the start node (\<open>main_roundtrip\<close>). The state reached above by \<open>load\<close> and
  \<open>home\<close> is not: loading its serialization adds \<open>hub.home\<close> to \<open>discovered\<close>.
\<close>


theorem roundtrip_changes_discovered:
  "command_loop lib (fresh_state ''neo'') (Some (Record (only_location ''market.node'')))
       [Some [''load''], Some [''home'']]
     = Inr (stray_state, Some (Record (only_location ''market.node'')))
   \<and> load_state (Record (serialize_state stray_state))
       = Inr (stray_state\<lparr>discovered := {|''hub.home'', ''market.node''|}\<rparr>)
   \<and> discovered (stray_state\<lparr>discovered := {|''hub.home'', ''market.node''|}\<rparr>)
       \<noteq> discovered stray_state"
  by (auto simp: handle_command_def with_disk_def lower_words cmd_load_def cmd_home_def
        load_state_def only_location_def get_default_def fresh_state_def enter_node_def
        lookup_market_node lookup_hub_home Let_def log_event_def stray_state_def
        serialize_state_def)

end
